theory Spec2Isabelle
  imports Complex_Main "HOL-Library.Multiset" "HOL-Library.AList"
begin

section \<open>JavaScript values used by the scoring engine\<close>

text \<open>
  The engine is TypeScript running on JavaScript numbers. Stroke counts, pars, holes,
  rounds and points are integers in every path the services take, so they are modelled
  as \<^typ>\<open>int\<close>. The one non-number that the code can produce is the result of reading
  the par array out of range (\<open>undefined\<close>) and of arithmetic on it (\<open>NaN\<close>); both behave
  the same in every operation of the engine (arithmetic gives \<open>NaN\<close>, every comparison is
  false, the value is falsy), so one constructor stands for both.
\<close>

datatype jsnum = Num int | NaN

fun jadd :: "jsnum \<Rightarrow> jsnum \<Rightarrow> jsnum" where
  "jadd (Num a) (Num b) = Num (a + b)"
| "jadd _ _ = NaN"

fun jsub :: "jsnum \<Rightarrow> jsnum \<Rightarrow> jsnum" where
  "jsub (Num a) (Num b) = Num (a - b)"
| "jsub _ _ = NaN"

fun isNumber :: "jsnum \<Rightarrow> bool" where
  "isNumber (Num _) = True"
| "isNumber NaN = False"

text \<open>\<open>a % b\<close> of JavaScript on integers: the remainder takes the sign of the dividend.\<close>

definition js_rem :: "int \<Rightarrow> int \<Rightarrow> int" where
  "js_rem a b = sgn a * (\<bar>a\<bar> mod \<bar>b\<bar>)"

text \<open>\<open>xs[i]\<close> on an array: \<open>undefined\<close> (here \<open>None\<close>) outside the array.\<close>

definition array_get :: "'a list \<Rightarrow> int \<Rightarrow> 'a option" where
  "array_get xs i = (if 0 \<le> i \<and> i < int (length xs) then Some (xs ! nat i) else None)"

section \<open>ScoringService: constants and Stableford points\<close>

definition standardPar :: "int list" where
  "standardPar = [4,4,5,3,5,4,4,4,3,4,5,3,4,4,5,4,3,4]"

definition standardIndex :: "int list" where
  "standardIndex = [8,14,4,16,2,6,12,10,18,11,3,17,13,9,1,5,15,7]"

text \<open>
  \<open>calculateStablefordPoints(strokes, par, receivedStrokes, hole)\<close>.
  \<open>Math.floor(receivedStrokes / 18)\<close> on an integer is \<open>div\<close>, which rounds down;
  \<open>holeIndex <= ...\<close> is false when \<open>holeIndex\<close> is \<open>undefined\<close>.
\<close>

definition calculateStablefordPoints :: "int \<Rightarrow> int \<Rightarrow> int \<Rightarrow> int \<Rightarrow> int" where
  "calculateStablefordPoints strokes par receivedStrokes hole =
     (let holeIndex = array_get standardIndex (hole - 1);
          strokesReceived = receivedStrokes div 18 +
            (if (case holeIndex of None \<Rightarrow> False
                 | Some i \<Rightarrow> i \<le> js_rem receivedStrokes 18) then 1 else 0);
          adjustedPar = par + strokesReceived;
          scoreDiff = strokes - adjustedPar
      in if scoreDiff \<le> - 2 then 4
         else if scoreDiff = - 1 then 3
         else if scoreDiff = 0 then 2
         else if scoreDiff = 1 then 1
         else 0)"

text \<open>
  The reference definition, following the words of the specification: the allowance of a
  player with \<open>R\<close> received strokes on a hole of stroke index \<open>idx\<close>, and the fixed
  points table on the difference to the adjusted par.
\<close>

definition spec_allowance :: "int \<Rightarrow> int \<Rightarrow> int" where
  "spec_allowance R idx = R div 18 + (if idx \<le> R mod 18 then 1 else 0)"

definition spec_stableford :: "int \<Rightarrow> int \<Rightarrow> int \<Rightarrow> int \<Rightarrow> int" where
  "spec_stableford strokes par R idx =
     (let diff = strokes - (par + spec_allowance R idx)
      in if diff \<le> - 2 then 4 else if diff = - 1 then 3 else if diff = 0 then 2
         else if diff = 1 then 1 else 0)"

section \<open>Strings and arrays\<close>

text \<open>
  A string is a list of 8-bit characters, read as the code points U+0000 to U+00FF;
  the names of the seeded roster are in that range (their only letter outside ASCII is
  U+00F6). Code points above U+00FF are not represented.
  \<open>toLowerCase\<close> maps A to Z and the capital letters U+00C0 to U+00DE, the
  multiplication sign U+00D7 apart, to the code point 32 above and leaves every other
  character of that range as it is. \<open>includes\<close> (here \<open>str_includes\<close>) is the substring
  test; the empty string is included in every string.
\<close>

definition lower_char :: "char \<Rightarrow> char" where
  "lower_char c =
     (let n = (of_char c :: nat)
      in if (65 \<le> n \<and> n \<le> 90) \<or> (192 \<le> n \<and> n \<le> 214) \<or> (216 \<le> n \<and> n \<le> 222)
         then char_of (n + 32) else c)"

definition toLowerCase :: "string \<Rightarrow> string" where
  "toLowerCase s = map lower_char s"

fun startsWith :: "string \<Rightarrow> string \<Rightarrow> bool" where
  "startsWith _ [] = True"
| "startsWith [] (_ # _) = False"
| "startsWith (x # xs) (y # ys) = (x = y \<and> startsWith xs ys)"

fun str_includes :: "string \<Rightarrow> string \<Rightarrow> bool" where
  "str_includes [] needle = (needle = [])"
| "str_includes (x # xs) needle = (startsWith (x # xs) needle \<or> str_includes xs needle)"

text \<open>\<open>findIndex\<close>: the first index whose element satisfies the test, \<open>None\<close> for \<open>-1\<close>.\<close>

fun findIndex :: "('a \<Rightarrow> bool) \<Rightarrow> 'a list \<Rightarrow> nat option" where
  "findIndex P [] = None"
| "findIndex P (x # xs) = (if P x then Some 0 else map_option Suc (findIndex P xs))"

text \<open>
  \<open>xs[i] = v\<close> on an array whose unset slots read as \<open>null\<close> or as holes (here
  \<open>None\<close>): an index past the end extends the array, a negative index sets a property
  that is no element of the array.
\<close>

definition array_set :: "'a option list \<Rightarrow> int \<Rightarrow> 'a \<Rightarrow> 'a option list" where
  "array_set xs i v =
     (if i < 0 then xs
      else if i < int (length xs) then xs[nat i := Some v]
      else xs @ replicate (nat i - length xs) None @ [Some v])"

text \<open>
  \<open>Array.prototype.sort(cmp)\<close>: a stable sort; \<open>x\<close> stays in front of \<open>y\<close> when
  \<open>cmp x y \<le> 0\<close>, and a comparator result of \<open>NaN\<close> counts as \<open>0\<close>. For a comparator
  that is a consistent ordering of the elements every stable sort returns this list.
  For any other comparator the language leaves the order to the engine, and this
  insertion is then one such order, not necessarily that of Node. The two agree on an
  array whose neighbours all compare as \<open>0\<close> or \<open>NaN\<close>: Node's sort compares neighbours
  first and is done when it finds the whole array in order, and the insertion below
  compares each element with its right neighbour only and moves nothing.
\<close>

fun insert_by :: "('a \<Rightarrow> 'a \<Rightarrow> int) \<Rightarrow> 'a \<Rightarrow> 'a list \<Rightarrow> 'a list" where
  "insert_by cmp x [] = [x]"
| "insert_by cmp x (y # ys) =
     (if cmp x y \<le> 0 then x # y # ys else y # insert_by cmp x ys)"

definition array_sort :: "('a \<Rightarrow> 'a \<Rightarrow> int) \<Rightarrow> 'a list \<Rightarrow> 'a list" where
  "array_sort cmp xs = foldr (insert_by cmp) xs []"

fun sort_value :: "jsnum \<Rightarrow> int" where
  "sort_value (Num v) = v"
| "sort_value NaN = 0"

text \<open>\<open>a !== b\<close> on numbers: \<open>NaN\<close> differs from everything, itself included.\<close>

fun js_neq :: "jsnum \<Rightarrow> jsnum \<Rightarrow> bool" where
  "js_neq (Num a) (Num b) = (a \<noteq> b)"
| "js_neq _ _ = True"

section \<open>The data model (server/src/types.ts)\<close>

record Player =
  p_id :: string
  p_name :: string
  p_currentHole :: int
  p_handicap :: "real option"
  p_receivedStrokes :: "int option"

text \<open>
  A ledger entry. \<open>s_timestamp\<close> is what \<open>new Date(timestamp).getTime()\<close> reads from
  the ISO string. \<open>s_strokes\<close> and \<open>s_par\<close> are numbers by type; the scoring path can
  store a non-number there (see \<open>processScoringUpdate_tournament\<close>).
\<close>

record ScoreEntry =
  s_playerId :: string
  s_hole :: int
  s_round :: int
  s_strokes :: jsnum
  s_par :: jsnum
  s_timestamp :: int

datatype action = Birdie | Eagle | Par | Bogey | DoubleBogey | Score | Delete

text \<open>\<open>u_hole\<close> and \<open>u_strokes\<close> are \<open>None\<close> for \<open>null\<close>, \<open>undefined\<close> and \<open>NaN\<close>.\<close>

record ScoringUpdate =
  u_player :: string
  u_hole :: "int option"
  u_strokes :: "int option"
  u_action :: action
  u_rawTranscription :: string

record Tournament =
  t_id :: string
  t_name :: string
  t_course :: string
  t_courseRating :: real
  t_slopeRating :: real
  t_par :: "int list"
  t_players :: "Player list"
  t_scores :: "ScoreEntry list"
  t_createdAt :: int
  t_totalRounds :: int
  t_currentRound :: int

record RoundScore =
  r_round :: int
  r_holeScores :: "jsnum option list"
  r_stablefordPoints :: "int option list"
  r_roundStrokes :: jsnum
  r_roundStablefordPoints :: int

text \<open>
  The leaderboard entry, without \<open>averageStablefordPoints\<close>: that field is a quotient
  of doubles, no other field and no ordering reads it.
\<close>

record LeaderboardEntry =
  l_playerId :: string
  l_playerName :: string
  l_totalStrokes :: jsnum
  l_holesCompleted :: int
  l_currentScore :: jsnum
  l_position :: int
  l_holeScores :: "jsnum option list"
  l_holePars :: "int list"
  l_stablefordPoints :: "int option list"
  l_totalStablefordPoints :: int
  l_stablefordVsPar :: int
  l_handicap :: "real option"
  l_receivedStrokes :: "int option"
  l_roundScores :: "RoundScore list option"
  l_totalRounds :: int

text \<open>The service's \<open>Map<string, Tournament>\<close>.\<close>

type_synonym tournaments = "string \<rightharpoonup> Tournament"

section \<open>ScoringService: tournament setup\<close>

text \<open>
  The arithmetic of the course handicap is on doubles: \<open>parseFloat\<close>, \<open>*\<close>, \<open>/\<close>, \<open>+\<close>
  and \<open>-\<close> each return the exact result rounded to the nearest double, a tie going to
  the even significand. \<open>rne\<close> rounds a real to the nearest integer that way. \<open>binade x\<close>
  is the exponent \<open>e\<close> with \<open>2 ^ e \<le> |x| < 2 ^ (e + 1)\<close>; a double has 53 significant bits, so
  the doubles of that binade are the multiples of \<open>2 ^ (e - 52)\<close>, and \<open>fl64 x\<close> is the
  nearest of them. The exponent is not bounded: \<open>fl64\<close> is the rounding of a double
  operation whose result neither overflows nor is subnormal, which is the case for
  the handicaps, slopes and ratings of a golf course.
\<close>

definition rne :: "real \<Rightarrow> int" where
  "rne y = (let f = \<lfloor>y\<rfloor>
            in if y - of_int f < 1 / 2 then f
               else if y - of_int f > 1 / 2 then f + 1
               else if even f then f else f + 1)"

definition binade :: "real \<Rightarrow> int" where
  "binade x = \<lfloor>log 2 \<bar>x\<bar>\<rfloor>"

definition fl64 :: "real \<Rightarrow> real" where
  "fl64 x = (if x = 0 then 0
             else of_int (rne (x / 2 powr of_int (binade x - 52))) * 2 powr of_int (binade x - 52))"

text \<open>
  \<open>Math.round\<close>: the nearest integer, a tie going up; it is exact on a double.
  \<open>totalPar\<close> is the \<open>reduce\<close> over \<open>standardPar\<close>, a sum of small integers.
\<close>

definition Math_round :: "real \<Rightarrow> int" where
  "Math_round x = \<lfloor>x + 1 / 2\<rfloor>"

definition totalPar :: int where
  "totalPar = foldl (\<lambda>sum par. sum + par) 0 standardPar"

text \<open>
  \<open>Math.round((handicap * slopeRating / 113) + (courseRating - totalPar))\<close>, one
  rounding for each of the four operations, in the order JavaScript evaluates them.
  The three arguments are the doubles the caller holds: for the text \<open>33.9\<close> the
  handicap is \<open>fl64 (339 / 10)\<close>.
\<close>

definition courseHandicap :: "real \<Rightarrow> real \<Rightarrow> real \<Rightarrow> int" where
  "courseHandicap handicap slopeRating courseRating =
     Math_round (fl64 (fl64 (fl64 (handicap * slopeRating) / 113)
                       + fl64 (courseRating - of_int totalPar)))"

text \<open>
  \<open>parsePlayerInfo\<close>. The regular expression and \<open>parseFloat\<close> are applied outside:
  \<open>name\<close> is the player's name and \<open>match\<close> the parsed handicap, \<open>None\<close> when the string
  carries none. \<open>newId\<close> is the value of \<open>uuidv4()\<close>. The pattern \<open>[\d.]+\<close> also accepts
  a text of dots only, for which \<open>parseFloat\<close> returns \<open>NaN\<close>; that handicap is no
  number and is not among the values of \<open>match\<close>.
\<close>

definition parsePlayerInfo ::
  "string \<Rightarrow> string \<Rightarrow> real option \<Rightarrow> real \<Rightarrow> real \<Rightarrow> Player" where
  "parsePlayerInfo newId name match courseRating slopeRating =
     (let handicap = (case match of Some h \<Rightarrow> h | None \<Rightarrow> 0);
          receivedStrokes = max 0 (courseHandicap handicap slopeRating courseRating)
      in \<lparr> p_id = newId, p_name = name, p_currentHole = 1,
           p_handicap = Some handicap, p_receivedStrokes = Some receivedStrokes \<rparr>)"

text \<open>
  \<open>createTournament\<close>, after the course string has been parsed into its name, rating
  and slope; \<open>ids\<close> are the values \<open>uuidv4()\<close> returns for the players, in order.
\<close>

definition createTournament ::
  "string \<Rightarrow> string list \<Rightarrow> int \<Rightarrow> string \<Rightarrow> string \<Rightarrow> real \<Rightarrow> real
     \<Rightarrow> (string \<times> real option) list \<Rightarrow> int \<Rightarrow> Tournament" where
  "createTournament tid ids now name courseName courseRating slopeRating playerNames
     totalRounds =
     \<lparr> t_id = tid, t_name = name, t_course = courseName,
       t_courseRating = courseRating, t_slopeRating = slopeRating,
       t_par = standardPar,
       t_players = map (\<lambda>(newId, (n, m)). parsePlayerInfo newId n m courseRating slopeRating)
                     (zip ids playerNames),
       t_scores = [], t_createdAt = now,
       t_totalRounds = totalRounds, t_currentRound = 1 \<rparr>"

section \<open>ScoringService: the score ledger\<close>

text \<open>
  The test both \<open>processScoringUpdate\<close> and \<open>deleteScore\<close> use to find the player an
  update names: either lower-cased name includes the other.
\<close>

definition nameMatches :: "string \<Rightarrow> Player \<Rightarrow> bool" where
  "nameMatches player p =
     (str_includes (toLowerCase (p_name p)) (toLowerCase player)
      \<or> str_includes (toLowerCase player) (toLowerCase (p_name p)))"

text \<open>The most recent first: \<open>sort((a, b) => time(b) - time(a))\<close>.\<close>

definition byTimestampDesc :: "ScoreEntry \<Rightarrow> ScoreEntry \<Rightarrow> int" where
  "byTimestampDesc a b = s_timestamp b - s_timestamp a"

text \<open>
  \<open>deleteScore\<close> on the tournament found under the id; \<open>now\<close> is the time of the call.
  The result is the returned entry (\<open>None\<close> for \<open>null\<close>) and the tournament afterwards.
  In the third way of finding the target the code sorts \<open>tournament.scores\<close> itself, so
  the ledger is reordered even when nothing is deleted.
\<close>

definition deleteScore_tournament ::
  "int \<Rightarrow> Tournament \<Rightarrow> ScoringUpdate \<Rightarrow> ScoreEntry option \<times> Tournament" where
  "deleteScore_tournament now t update =
     (let player0 = (if u_player update \<noteq> []
                     then find (nameMatches (u_player update)) (t_players t) else None);
          (player, hole, scores) =
            (case (case u_hole update of Some h \<Rightarrow> if h \<noteq> 0 then Some h else None
                   | None \<Rightarrow> None) of
               Some h \<Rightarrow> (player0, Some h, t_scores t)
             | None \<Rightarrow>
                (case player0 of
                   Some p \<Rightarrow>
                     (case array_sort byTimestampDesc
                             (filter (\<lambda>s. s_playerId s = p_id p) (t_scores t)) of
                        [] \<Rightarrow> (player0, None, t_scores t)
                      | s # _ \<Rightarrow> (player0, Some (s_hole s), t_scores t))
                 | None \<Rightarrow>
                     (case array_sort byTimestampDesc (t_scores t) of
                        [] \<Rightarrow> (None, None, [])
                      | s # rest \<Rightarrow>
                          (find (\<lambda>p. p_id p = s_playerId s) (t_players t),
                           Some (s_hole s), s # rest))));
          t1 = t\<lparr>t_scores := scores\<rparr>
      in case (player, hole) of
           (Some p, Some h) \<Rightarrow>
             (if h = 0 then (None, t1)
              else case findIndex (\<lambda>s. s_playerId s = p_id p \<and> s_hole s = h) scores of
                     Some scoreIndex \<Rightarrow>
                       (let deletedScore = scores ! scoreIndex
                        in (Some \<lparr> s_playerId = p_id p, s_hole = h,
                                    s_round = s_round deletedScore, s_strokes = Num 0,
                                    s_par = s_par deletedScore, s_timestamp = now \<rparr>,
                            t1\<lparr>t_scores := take scoreIndex scores @ drop (Suc scoreIndex) scores\<rparr>))
                   | None \<Rightarrow> (None, t1))
         | _ \<Rightarrow> (None, t1))"

text \<open>
  \<open>processScoringUpdate\<close> on the tournament found under the id. \<open>newId\<close> is the value
  \<open>uuidv4()\<close> would return, \<open>now\<close> the time of the call. The player object is shared
  with \<open>tournament.players\<close>, so the model keeps its index: \<open>players\<close> is the roster after
  the possible \<open>push\<close>, which stays in the tournament also when the function goes on to
  return \<open>null\<close>.
\<close>

definition processScoringUpdate_tournament ::
  "string \<Rightarrow> int \<Rightarrow> Tournament \<Rightarrow> ScoringUpdate \<Rightarrow> ScoreEntry option \<times> Tournament" where
  "processScoringUpdate_tournament newId now t update =
     (if u_action update = Delete then deleteScore_tournament now t update
      else
        case (case findIndex (nameMatches (u_player update)) (t_players t) of
                Some i \<Rightarrow> Some (i, t_players t)
              | None \<Rightarrow>
                  if u_player update \<noteq> []
                  then Some (length (t_players t),
                             t_players t @ [\<lparr> p_id = newId, p_name = u_player update,
                                              p_currentHole = 1, p_handicap = None,
                                              p_receivedStrokes = None \<rparr>])
                  else None) of
          None \<Rightarrow> (None, t)
        | Some (i, players) \<Rightarrow>
            (let player = players ! i;
                 hole = (case u_hole update of
                           Some h \<Rightarrow> if h \<noteq> 0 then h else p_currentHole player
                         | None \<Rightarrow> p_currentHole player);
                 par = (case array_get (t_par t) (hole - 1) of
                          Some v \<Rightarrow> Num v | None \<Rightarrow> NaN);
                 derived = (case u_action update of
                              Eagle \<Rightarrow> Some (jsub par (Num 2))
                            | Birdie \<Rightarrow> Some (jsub par (Num 1))
                            | Par \<Rightarrow> Some par
                            | Bogey \<Rightarrow> Some (jadd par (Num 1))
                            | DoubleBogey \<Rightarrow> Some (jadd par (Num 2))
                            | _ \<Rightarrow> None);
                 strokes = (case u_strokes update of
                              Some s \<Rightarrow> if s \<noteq> 0 then Some (Num s) else derived
                            | None \<Rightarrow> derived)
             in case strokes of
                  None \<Rightarrow> (None, t\<lparr>t_players := players\<rparr>)
                | Some strokes \<Rightarrow>
                    (let scoreEntry = \<lparr> s_playerId = p_id player, s_hole = hole,
                                        s_round = t_currentRound t, s_strokes = strokes,
                                        s_par = par, s_timestamp = now \<rparr>;
                         scores =
                           (case findIndex (\<lambda>s. s_playerId s = p_id player \<and> s_hole s = hole
                                                 \<and> s_round s = t_currentRound t) (t_scores t) of
                              Some existingScoreIndex \<Rightarrow>
                                (t_scores t)[existingScoreIndex := scoreEntry]
                            | None \<Rightarrow> t_scores t @ [scoreEntry]);
                         players' =
                           (if hole = p_currentHole player \<and> hole < 18
                            then players[i := player\<lparr>p_currentHole := hole + 1\<rparr>]
                            else players)
                     in (Some scoreEntry, t\<lparr>t_players := players', t_scores := scores\<rparr>))))"

text \<open>The method itself: the tournament is looked up in the map and written back.\<close>

definition processScoringUpdate ::
  "string \<Rightarrow> int \<Rightarrow> tournaments \<Rightarrow> string \<Rightarrow> ScoringUpdate
     \<Rightarrow> ScoreEntry option \<times> tournaments" where
  "processScoringUpdate newId now ts tournamentId update =
     (case ts tournamentId of
        None \<Rightarrow> (None, ts)
      | Some t \<Rightarrow>
          (let (r, t') = processScoringUpdate_tournament newId now t update
           in (r, ts(tournamentId \<mapsto> t'))))"

text \<open>
  The handler of \<open>POST /api/tournament/:id/manual-score\<close>, up to the call of
  \<open>processScoringUpdate\<close> on the active tournament. The body's \<open>hole\<close> and \<open>strokes\<close>
  are JSON numbers, as the client sends them, which \<open>parseInt\<close> returns unchanged;
  \<open>hole\<close> is \<open>None\<close> when the field is absent, and \<open>manual_strokes\<close> tells a missing
  field, \<open>null\<close> and a number apart. An absent or zero \<open>hole\<close> fails the first test.
  The result is the response (an error status or the score entry) and the active
  tournament afterwards.
\<close>

datatype manual_strokes = Missing | Null | Strokes int

datatype http_error = BadRequest | NotFound

definition manualScore ::
  "string \<Rightarrow> int \<Rightarrow> Tournament \<Rightarrow> string \<Rightarrow> int option \<Rightarrow> manual_strokes
     \<Rightarrow> (http_error + ScoreEntry) \<times> Tournament" where
  "manualScore newId now activeTournament playerId hole strokes =
     (if playerId = [] \<or> hole = None \<or> hole = Some 0 \<or> strokes = Missing
      then (Inl BadRequest, activeTournament)
      else case find (\<lambda>p. p_id p = playerId) (t_players activeTournament) of
             None \<Rightarrow> (Inl NotFound, activeTournament)
           | Some player \<Rightarrow>
               (let scoringUpdate =
                      \<lparr> u_player = p_name player, u_hole = hole,
                        u_strokes = (case strokes of Strokes s \<Rightarrow> Some s | _ \<Rightarrow> None),
                        u_action = (if strokes = Null then Delete else Score),
                        u_rawTranscription = [] \<rparr>
                in case processScoringUpdate_tournament newId now activeTournament
                          scoringUpdate of
                     (None, t') \<Rightarrow> (Inl BadRequest, t')
                   | (Some scoreEntry, t') \<Rightarrow> (Inr scoreEntry, t')))"

section \<open>ScoringService: the individual leaderboard\<close>

text \<open>
  \<open>calculateStablefordPoints\<close> on the fields of a ledger entry: when the strokes or the
  par is no number, \<open>scoreDiff\<close> is \<open>NaN\<close>, every test fails and the result is 0.
\<close>

fun stablefordOfEntry :: "jsnum \<Rightarrow> jsnum \<Rightarrow> int \<Rightarrow> int \<Rightarrow> int" where
  "stablefordOfEntry (Num strokes) (Num par) receivedStrokes hole =
     calculateStablefordPoints strokes par receivedStrokes hole"
| "stablefordOfEntry _ _ receivedStrokes hole = 0"

text \<open>\<open>player.receivedStrokes || 0\<close>.\<close>

definition receivedOrZero :: "Player \<Rightarrow> int" where
  "receivedOrZero player = (case p_receivedStrokes player of Some r \<Rightarrow> r | None \<Rightarrow> 0)"

text \<open>
  The two 18-slot arrays filled by \<open>forEach\<close> over the scores of one round: the strokes
  and the Stableford points per hole.
\<close>

definition holeArrays ::
  "Player \<Rightarrow> ScoreEntry list \<Rightarrow> jsnum option list \<times> int option list" where
  "holeArrays player scores =
     fold (\<lambda>score (holeScores, stablefordPoints).
             (array_set holeScores (s_hole score - 1) (s_strokes score),
              array_set stablefordPoints (s_hole score - 1)
                (stablefordOfEntry (s_strokes score) (s_par score)
                   (receivedOrZero player) (s_hole score))))
          scores (replicate 18 None, replicate 18 None)"

text \<open>\<open>reduce((sum, points) => sum + (points || 0), 0)\<close>.\<close>

definition sumPoints :: "int option list \<Rightarrow> int" where
  "sumPoints ps = foldl (\<lambda>sum points. sum + (case points of Some v \<Rightarrow> v | None \<Rightarrow> 0)) 0 ps"

definition roundScoreOf :: "Tournament \<Rightarrow> Player \<Rightarrow> int \<Rightarrow> RoundScore" where
  "roundScoreOf tournament player roundNo =
     (let roundPlayerScores =
            filter (\<lambda>s. s_playerId s = p_id player \<and> s_round s = roundNo)
                   (t_scores tournament);
          (roundHoleScores, roundStablefordPoints) = holeArrays player roundPlayerScores
      in \<lparr> r_round = roundNo, r_holeScores = roundHoleScores,
           r_stablefordPoints = roundStablefordPoints,
           r_roundStrokes = foldl (\<lambda>sum score. jadd sum (s_strokes score)) (Num 0)
                              roundPlayerScores,
           r_roundStablefordPoints =
             foldl (\<lambda>sum score. sum + stablefordOfEntry (s_strokes score) (s_par score)
                                        (receivedOrZero player) (s_hole score)) 0
                   roundPlayerScores \<rparr>)"

text \<open>The entry of one player, as the \<open>map\<close> over \<open>tournament.players\<close> builds it.\<close>

definition leaderboardEntry :: "Tournament \<Rightarrow> int option \<Rightarrow> Player \<Rightarrow> LeaderboardEntry" where
  "leaderboardEntry tournament selectedRound player =
     (let displayRound = (case selectedRound of
                            Some r \<Rightarrow> if r \<noteq> 0 then r else t_currentRound tournament
                          | None \<Rightarrow> t_currentRound tournament);
          currentRoundScores =
            filter (\<lambda>s. s_playerId s = p_id player \<and> s_round s = displayRound)
                   (t_scores tournament);
          totalStrokes = foldl (\<lambda>sum score. jadd sum (s_strokes score)) (Num 0)
                           currentRoundScores;
          holesCompleted = int (length currentRoundScores);
          totalPar = foldl (\<lambda>sum score. jadd sum (s_par score)) (Num 0) currentRoundScores;
          currentScore = jsub totalStrokes totalPar;
          (holeScores, stablefordPoints) = holeArrays player currentRoundScores;
          totalStablefordPoints = sumPoints stablefordPoints;
          expectedPoints = holesCompleted * 2;
          stablefordVsPar = totalStablefordPoints - expectedPoints;
          multiRoundScores =
            (if t_totalRounds tournament > 1
             then map (roundScoreOf tournament player) [1 .. t_totalRounds tournament]
             else [])
      in \<lparr> l_playerId = p_id player, l_playerName = p_name player,
           l_totalStrokes = totalStrokes, l_holesCompleted = holesCompleted,
           l_currentScore = currentScore, l_position = 0,
           l_holeScores = holeScores, l_holePars = t_par tournament,
           l_stablefordPoints = stablefordPoints,
           l_totalStablefordPoints = totalStablefordPoints,
           l_stablefordVsPar = stablefordVsPar,
           l_handicap = p_handicap player, l_receivedStrokes = p_receivedStrokes player,
           l_roundScores = (if t_totalRounds tournament > 1 then Some multiRoundScores
                            else None),
           l_totalRounds = t_totalRounds tournament \<rparr>)"

text \<open>The comparator of \<open>leaderboard.sort\<close>.\<close>

definition compareEntries :: "LeaderboardEntry \<Rightarrow> LeaderboardEntry \<Rightarrow> jsnum" where
  "compareEntries a b =
     (if js_neq (l_currentScore a) (l_currentScore b)
      then jsub (l_currentScore a) (l_currentScore b)
      else Num (l_holesCompleted b - l_holesCompleted a))"

text \<open>\<open>forEach((entry, index) => entry.position = index + 1)\<close>.\<close>

definition assignPositions :: "LeaderboardEntry list \<Rightarrow> LeaderboardEntry list" where
  "assignPositions es =
     map (\<lambda>(index, entry). entry\<lparr>l_position := int index + 1\<rparr>) (enumerate 0 es)"

text \<open>
  \<open>generateLeaderboard(tournamentId, selectedRound)\<close>. It reads the map of tournaments
  and writes nothing: the entries are new objects and the sorted array is the new one.
\<close>

definition generateLeaderboard ::
  "tournaments \<Rightarrow> string \<Rightarrow> int option \<Rightarrow> LeaderboardEntry list" where
  "generateLeaderboard ts tournamentId selectedRound =
     (case ts tournamentId of
        None \<Rightarrow> []
      | Some tournament \<Rightarrow>
          assignPositions
            (array_sort (\<lambda>a b. sort_value (compareEntries a b))
               (map (leaderboardEntry tournament selectedRound) (t_players tournament))))"

section \<open>TeamSidegameService: data\<close>

record Team =
  tm_id :: string
  tm_name :: string
  tm_color :: string
  tm_players :: "string list"

datatype gameType = AllVsAll | SumMatch

text \<open>
  An object used as a dictionary (\<open>{ [key: string]: number }\<close>) is an association list
  with distinct keys in the order of insertion: \<open>obj_set\<close> is \<open>o[k] = v\<close>, \<open>obj_add\<close>
  is \<open>o[k] += d\<close>, which stores \<open>NaN\<close> when the key is absent, \<open>map_of\<close> reads,
  \<open>map snd\<close> is \<open>Object.values\<close>. (JavaScript lists integer-like keys first; no result
  below depends on the order.)
\<close>

type_synonym obj = "(string \<times> jsnum) list"

definition obj_set :: "obj \<Rightarrow> string \<Rightarrow> jsnum \<Rightarrow> obj" where
  "obj_set ob k v = AList.update k v ob"

definition obj_add :: "obj \<Rightarrow> string \<Rightarrow> jsnum \<Rightarrow> obj" where
  "obj_add ob k d =
     obj_set ob k (case map_of ob k of Some v \<Rightarrow> jadd v d | None \<Rightarrow> NaN)"

record TeamMatch =
  m_id :: string
  m_sidegameId :: string
  m_hole :: int
  m_gameType :: gameType
  m_participants :: "string list"
  m_teamPoints :: obj
  m_holeResults :: obj
  m_timestamp :: int

record TeamSidegame =
  g_id :: string
  g_tournamentId :: string
  g_round :: int
  g_gameType :: gameType
  g_teams :: "Team list"
  g_groupings :: "string list list option"
  g_matches :: "TeamMatch list"
  g_createdAt :: int

record TeamLeaderboardEntry =
  e_teamId :: string
  e_teamName :: string
  e_teamColor :: string
  e_totalPoints :: int
  e_matchesPlayed :: int
  e_position :: int

text \<open>
  \<open>Math.min(...xs)\<close> and \<open>Math.max(...xs)\<close>: \<open>NaN\<close> as soon as one argument is,
  \<open>Infinity\<close> and \<open>-Infinity\<close> on no arguments. \<open>js_seq\<close> is \<open>===\<close> and
  \<open>js_sneq\<close> is \<open>!==\<close> on such values.
\<close>

datatype jsext = Fin jsnum | PInf | NInf

fun jmin :: "jsnum \<Rightarrow> jsnum \<Rightarrow> jsnum" where
  "jmin (Num a) (Num b) = Num (min a b)"
| "jmin _ _ = NaN"

fun jmax :: "jsnum \<Rightarrow> jsnum \<Rightarrow> jsnum" where
  "jmax (Num a) (Num b) = Num (max a b)"
| "jmax _ _ = NaN"

fun Math_min :: "jsnum list \<Rightarrow> jsext" where
  "Math_min [] = PInf"
| "Math_min (x # xs) = (case Math_min xs of Fin m \<Rightarrow> Fin (jmin x m) | _ \<Rightarrow> Fin x)"

fun Math_max :: "jsnum list \<Rightarrow> jsext" where
  "Math_max [] = NInf"
| "Math_max (x # xs) = (case Math_max xs of Fin m \<Rightarrow> Fin (jmax x m) | _ \<Rightarrow> Fin x)"

fun js_seq :: "jsext \<Rightarrow> jsext \<Rightarrow> bool" where
  "js_seq (Fin (Num a)) (Fin (Num b)) = (a = b)"
| "js_seq PInf PInf = True"
| "js_seq NInf NInf = True"
| "js_seq _ _ = False"

definition js_sneq :: "jsext \<Rightarrow> jsext \<Rightarrow> bool" where
  "js_sneq a b = (\<not> js_seq a b)"

section \<open>TeamSidegameService: points of one hole\<close>

text \<open>
  \<open>teams\<close> stands for \<open>this.teams\<close>, the values of the \<open>Map\<close> in its order, loaded
  from the configuration. \<open>getPlayerTeam\<close> is the first team with a member whose
  lower-cased name equals, includes or is included in the lower-cased player name.
\<close>

definition getPlayerTeam :: "Team list \<Rightarrow> string \<Rightarrow> Team option" where
  "getPlayerTeam teams playerName =
     find (\<lambda>team. list_ex (\<lambda>player.
                     toLowerCase player = toLowerCase playerName
                     \<or> str_includes (toLowerCase playerName) (toLowerCase player)
                     \<or> str_includes (toLowerCase player) (toLowerCase playerName))
                   (tm_players team)) teams"

text \<open>
  The test that guards \<open>teamStrokesDifference[team.id] += strokesVsPar\<close>, written three
  times in the service with the same text: on the team \<open>green\<close> Christer counts on
  even holes and Anders on odd ones; everybody else counts on every hole.
\<close>

definition countsOnHole :: "Team \<Rightarrow> string \<Rightarrow> int \<Rightarrow> bool" where
  "countsOnHole team playerName hole =
     (if tm_id team = ''green''
         \<and> (str_includes playerName ''Christer'' \<or> str_includes playerName ''Anders'')
      then (let isChristersHole = (js_rem hole 2 = 0);
                isAndersHole = (js_rem hole 2 = 1)
            in (str_includes playerName ''Christer'' \<and> isChristersHole)
               \<or> (str_includes playerName ''Anders'' \<and> isAndersHole))
      else (tm_id team \<noteq> ''green''
            \<or> (\<not> str_includes playerName ''Christer'' \<and> \<not> str_includes playerName ''Anders'')))"

text \<open>\<open>this.teams.forEach(team => { o[team.id] = 0 })\<close> on the empty object.\<close>

definition zeroPerTeam :: "Team list \<Rightarrow> obj" where
  "zeroPerTeam teams = fold (\<lambda>team ob. obj_set ob (tm_id team) (Num 0)) teams []"

text \<open>
  The first half of \<open>calculateSumMatchPoints\<close>: the strokes against par of each team
  on the hole, from \<open>holeResults\<close> (player name to strokes against par).
\<close>

definition sumMatchTotals :: "Team list \<Rightarrow> obj \<Rightarrow> int \<Rightarrow> obj" where
  "sumMatchTotals teams holeResults hole =
     fold (\<lambda>(playerName, strokesVsPar) teamStrokesDifference.
             case getPlayerTeam teams playerName of
               None \<Rightarrow> teamStrokesDifference
             | Some team \<Rightarrow>
                 if countsOnHole team playerName hole
                 then obj_add teamStrokesDifference (tm_id team) strokesVsPar
                 else teamStrokesDifference)
          holeResults (zeroPerTeam teams)"

text \<open>The ids of the teams whose total is \<open>===\<close> the given extreme.\<close>

definition teamsAt :: "obj \<Rightarrow> jsext \<Rightarrow> string list" where
  "teamsAt teamStrokesDifference extreme =
     map fst (filter (\<lambda>(_, score). js_seq (Fin score) extreme) teamStrokesDifference)"

text \<open>The second half of \<open>calculateSumMatchPoints\<close>: every winner 1, every loser -1.\<close>

definition sumMatchAward :: "obj \<Rightarrow> obj \<Rightarrow> obj" where
  "sumMatchAward teamStrokesDifference teamPoints =
     (let teamScores = map snd teamStrokesDifference;
          bestScore = Math_min teamScores;
          worstScore = Math_max teamScores
      in if js_sneq bestScore worstScore
         then (let winners = teamsAt teamStrokesDifference bestScore;
                   losers = teamsAt teamStrokesDifference worstScore;
                   teamPoints1 = fold (\<lambda>teamId tp. obj_set tp teamId (Num 1)) winners teamPoints
               in fold (\<lambda>teamId tp. obj_set tp teamId (Num (- 1))) losers teamPoints1)
         else teamPoints)"

definition calculateSumMatchPoints :: "Team list \<Rightarrow> obj \<Rightarrow> int \<Rightarrow> obj" where
  "calculateSumMatchPoints teams holeResults hole =
     sumMatchAward (sumMatchTotals teams holeResults hole) (zeroPerTeam teams)"

text \<open>\<open>holeResults[player] || 0\<close>: 0 for an absent key and for \<open>NaN\<close>.\<close>

definition resultOrZero :: "obj \<Rightarrow> string \<Rightarrow> int" where
  "resultOrZero holeResults player =
     (case map_of holeResults player of Some (Num v) \<Rightarrow> v | _ \<Rightarrow> 0)"

text \<open>The body of the two nested \<open>for\<close> loops of \<open>calculateAllVsAllPoints\<close>.\<close>

definition comparePair :: "Team list \<Rightarrow> obj \<Rightarrow> obj \<Rightarrow> string \<Rightarrow> string \<Rightarrow> obj" where
  "comparePair teams holeResults teamPoints player1 player2 =
     (case (getPlayerTeam teams player1, getPlayerTeam teams player2) of
        (Some team1, Some team2) \<Rightarrow>
          if tm_id team1 \<noteq> tm_id team2
          then (let score1 = resultOrZero holeResults player1;
                    score2 = resultOrZero holeResults player2
                in if score1 > score2 then obj_add teamPoints (tm_id team1) (Num 1)
                   else if score2 > score1 then obj_add teamPoints (tm_id team2) (Num 1)
                   else teamPoints)
          else teamPoints
      | _ \<Rightarrow> teamPoints)"

text \<open>
  \<open>for (i = 0; i < n; i++) for (j = i + 1; j < n; j++)\<close> over the players of one group
  that have a result (\<open>playerName in holeResults\<close>).
\<close>

definition groupLoop :: "Team list \<Rightarrow> obj \<Rightarrow> string list \<Rightarrow> obj \<Rightarrow> obj" where
  "groupLoop teams holeResults groupPlayers teamPoints =
     fold (\<lambda>i tp. fold (\<lambda>j tp'. comparePair teams holeResults tp'
                                    (groupPlayers ! i) (groupPlayers ! j))
                        [Suc i ..< length groupPlayers] tp)
          [0 ..< length groupPlayers] teamPoints"

definition calculateAllVsAllPoints :: "Team list \<Rightarrow> obj \<Rightarrow> string list list \<Rightarrow> obj" where
  "calculateAllVsAllPoints teams holeResults groupings =
     fold (\<lambda>group teamPoints.
             groupLoop teams holeResults
               (filter (\<lambda>playerName. playerName \<in> set (map fst holeResults)) group) teamPoints)
          groupings (zeroPerTeam teams)"

text \<open>
  \<open>processHoleMatch\<close> on the sidegame found under the id: the match of the hole and the
  sidegame with that match in place of an earlier one for the same hole.
\<close>

definition processHoleMatch_sidegame ::
  "Team list \<Rightarrow> string \<Rightarrow> int \<Rightarrow> TeamSidegame \<Rightarrow> int \<Rightarrow> obj \<Rightarrow> TeamMatch \<times> TeamSidegame" where
  "processHoleMatch_sidegame teams newId now sidegame hole holeResults =
     (let teamPoints =
            (case g_gameType sidegame of
               SumMatch \<Rightarrow> calculateSumMatchPoints teams holeResults hole
             | AllVsAll \<Rightarrow>
                 calculateAllVsAllPoints teams holeResults
                   (case g_groupings sidegame of Some gs \<Rightarrow> gs | None \<Rightarrow> []));
          match = \<lparr> m_id = newId, m_sidegameId = g_id sidegame, m_hole = hole,
                    m_gameType = g_gameType sidegame,
                    m_participants = map fst holeResults,
                    m_teamPoints = teamPoints, m_holeResults = holeResults,
                    m_timestamp = now \<rparr>
      in (match,
          sidegame\<lparr>g_matches := filter (\<lambda>m. m_hole m \<noteq> hole) (g_matches sidegame) @ [match]\<rparr>))"

section \<open>TeamSidegameService: the team leaderboard\<close>

text \<open>
  \<open>holesWithScores\<close>: the holes of the ledger entries of the current round, a
  \<open>Set\<close> in the order of first insertion.
\<close>

definition holesWithScores :: "Tournament \<Rightarrow> int list" where
  "holesWithScores activeTournament =
     fold (\<lambda>score holes.
             if s_round score = t_currentRound activeTournament
             then (if s_hole score \<in> set holes then holes else holes @ [s_hole score])
             else holes)
          (t_scores activeTournament) []"

text \<open>
  The strokes against par of each team on one hole, from the ledger of the active
  tournament: the first half of the body of \<open>holesWithScores.forEach\<close>.
\<close>

definition holeTotals :: "Team list \<Rightarrow> Tournament \<Rightarrow> int \<Rightarrow> obj" where
  "holeTotals teams activeTournament hole =
     fold (\<lambda>score teamStrokesDifference.
             case find (\<lambda>p. p_id p = s_playerId score) (t_players activeTournament) of
               None \<Rightarrow> teamStrokesDifference
             | Some player \<Rightarrow>
                 (case getPlayerTeam teams (p_name player) of
                    None \<Rightarrow> teamStrokesDifference
                  | Some team \<Rightarrow>
                      (let strokesVsPar = jsub (s_strokes score) (s_par score)
                       in if countsOnHole team (p_name player) hole
                          then obj_add teamStrokesDifference (tm_id team) strokesVsPar
                          else teamStrokesDifference)))
          (filter (\<lambda>s. s_hole s = hole \<and> s_round s = t_currentRound activeTournament)
                  (t_scores activeTournament))
          (zeroPerTeam teams)"

text \<open>
  The second half: the award of the hole, added to \<open>teamTotalPoints\<close>. A point is given
  only to a sole winner and taken only from a sole loser.
\<close>

definition holeAward :: "obj \<Rightarrow> obj \<Rightarrow> obj" where
  "holeAward teamStrokesDifference teamTotalPoints =
     (let teamScores = map snd teamStrokesDifference;
          bestScore = Math_min teamScores;
          worstScore = Math_max teamScores
      in if js_sneq bestScore worstScore
         then (let winners = teamsAt teamStrokesDifference bestScore;
                   losers = teamsAt teamStrokesDifference worstScore;
                   teamTotalPoints1 =
                     (if length winners = 1
                      then obj_add teamTotalPoints (winners ! 0) (Num 1)
                      else teamTotalPoints)
               in if length losers = 1
                  then obj_add teamTotalPoints1 (losers ! 0) (Num (- 1))
                  else teamTotalPoints1)
         else teamTotalPoints)"

text \<open>\<open>teamTotalPoints[team.id] || 0\<close>.\<close>

definition pointsOrZero :: "obj \<Rightarrow> string \<Rightarrow> int" where
  "pointsOrZero teamTotalPoints teamId =
     (case map_of teamTotalPoints teamId of Some (Num v) \<Rightarrow> v | _ \<Rightarrow> 0)"

text \<open>
  The comparator of the team leaderboard. \<open>localeCompare\<close> is the collation of the
  platform, a parameter of the model.
\<close>

definition compareTeams ::
  "(string \<Rightarrow> string \<Rightarrow> int) \<Rightarrow> TeamLeaderboardEntry \<Rightarrow> TeamLeaderboardEntry \<Rightarrow> int" where
  "compareTeams localeCompare a b =
     (if e_totalPoints b \<noteq> e_totalPoints a then e_totalPoints b - e_totalPoints a
      else localeCompare (e_teamName a) (e_teamName b))"

definition assignTeamPositions :: "TeamLeaderboardEntry list \<Rightarrow> TeamLeaderboardEntry list" where
  "assignTeamPositions es =
     map (\<lambda>(index, entry). entry\<lparr>e_position := int index + 1\<rparr>) (enumerate 0 es)"

text \<open>
  \<open>generateTeamLeaderboard(sidegameId)\<close>. \<open>sidegame\<close> is \<open>this.sidegames.get(sidegameId)\<close>
  and \<open>activeTournament\<close> the result of \<open>loadActiveTournament()\<close>, which reads the
  tournament named \<open>GA 2025\<close> from the saved file; \<open>None\<close> stands for \<open>undefined\<close> and
  \<open>null\<close>.
\<close>

definition generateTeamLeaderboard ::
  "(string \<Rightarrow> string \<Rightarrow> int) \<Rightarrow> Team list \<Rightarrow> TeamSidegame option \<Rightarrow> Tournament option
     \<Rightarrow> TeamLeaderboardEntry list" where
  "generateTeamLeaderboard localeCompare teams sidegame activeTournament =
     (case sidegame of
        None \<Rightarrow> []
      | Some sidegame \<Rightarrow>
          if g_gameType sidegame \<noteq> SumMatch then []
          else case activeTournament of
                 None \<Rightarrow> []
               | Some activeTournament \<Rightarrow>
                   (let holes = holesWithScores activeTournament;
                        teamTotalPoints =
                          fold (\<lambda>hole total. holeAward (holeTotals teams activeTournament hole) total)
                               holes (zeroPerTeam (g_teams sidegame));
                        matchesPlayed = int (length holes);
                        leaderboard =
                          map (\<lambda>team. \<lparr> e_teamId = tm_id team, e_teamName = tm_name team,
                                         e_teamColor = tm_color team,
                                         e_totalPoints = pointsOrZero teamTotalPoints (tm_id team),
                                         e_matchesPlayed = matchesPlayed, e_position = 0 \<rparr>)
                              (g_teams sidegame)
                    in assignTeamPositions (array_sort (compareTeams localeCompare) leaderboard)))"

section \<open>Predicates and example data of the properties\<close>

text \<open>
  A comparator is a consistent ordering on a set when any two elements are comparable
  and \<open>cmp a b \<le> 0\<close> is transitive there.
\<close>

definition consistent_on :: "'a set \<Rightarrow> ('a \<Rightarrow> 'a \<Rightarrow> int) \<Rightarrow> bool" where
  "consistent_on A cmp \<longleftrightarrow>
     (\<forall>a\<in>A. \<forall>b\<in>A. cmp a b \<le> 0 \<or> cmp b a \<le> 0) \<and>
     (\<forall>a\<in>A. \<forall>b\<in>A. \<forall>c\<in>A. cmp a b \<le> 0 \<longrightarrow> cmp b c \<le> 0 \<longrightarrow> cmp a c \<le> 0)"

text \<open>
  The order of the individual leaderboard: a lower score against par first, and among
  equal scores the entry with more holes completed first.
\<close>

definition rankedBefore :: "LeaderboardEntry \<Rightarrow> LeaderboardEntry \<Rightarrow> bool" where
  "rankedBefore a b =
     (case (l_currentScore a, l_currentScore b) of
        (Num x, Num y) \<Rightarrow> x < y \<or> (x = y \<and> l_holesCompleted b \<le> l_holesCompleted a)
      | _ \<Rightarrow> False)"

text \<open>Every ledger entry holds numbers for its strokes and its par, as its type says.\<close>

definition wellFormedLedger :: "Tournament \<Rightarrow> bool" where
  "wellFormedLedger t =
     list_all (\<lambda>s. isNumber (s_strokes s) \<and> isNumber (s_par s)) (t_scores t)"

text \<open>
  A tournament of three players in its second round: Ann has played hole 1 in both
  rounds, Bob and Cid in the second. Each player is the one member of a team.
\<close>

definition exampleTournament :: Tournament where
  "exampleTournament =
     \<lparr> t_id = ''t1'', t_name = ''GA 2025'', t_course = ''El Saler'',
       t_courseRating = 72, t_slopeRating = 125, t_par = standardPar,
       t_players =
         [\<lparr> p_id = ''p1'', p_name = ''Ann'', p_currentHole = 2,
             p_handicap = Some 10, p_receivedStrokes = Some 11 \<rparr>,
          \<lparr> p_id = ''p2'', p_name = ''Bob'', p_currentHole = 2,
             p_handicap = Some 0, p_receivedStrokes = Some 0 \<rparr>,
          \<lparr> p_id = ''p3'', p_name = ''Cid'', p_currentHole = 2,
             p_handicap = Some 0, p_receivedStrokes = Some 0 \<rparr>],
       t_scores =
         [\<lparr> s_playerId = ''p1'', s_hole = 1, s_round = 1, s_strokes = Num 5, s_par = Num 4,
             s_timestamp = 100 \<rparr>,
          \<lparr> s_playerId = ''p2'', s_hole = 1, s_round = 2, s_strokes = Num 5, s_par = Num 4,
             s_timestamp = 200 \<rparr>,
          \<lparr> s_playerId = ''p1'', s_hole = 1, s_round = 2, s_strokes = Num 3, s_par = Num 4,
             s_timestamp = 300 \<rparr>,
          \<lparr> s_playerId = ''p3'', s_hole = 1, s_round = 2, s_strokes = Num 3, s_par = Num 4,
             s_timestamp = 400 \<rparr>],
       t_createdAt = 0, t_totalRounds = 2, t_currentRound = 2 \<rparr>"

definition exampleTeams :: "Team list" where
  "exampleTeams =
     [\<lparr> tm_id = ''red'', tm_name = ''Red'', tm_color = ''#f00'', tm_players = [''Ann''] \<rparr>,
      \<lparr> tm_id = ''blue'', tm_name = ''Blue'', tm_color = ''#00f'', tm_players = [''Bob''] \<rparr>,
      \<lparr> tm_id = ''white'', tm_name = ''White'', tm_color = ''#fff'', tm_players = [''Cid''] \<rparr>]"

definition exampleSidegame :: "gameType \<Rightarrow> TeamSidegame" where
  "exampleSidegame gt =
     \<lparr> g_id = ''g1'', g_tournamentId = ''t1'', g_round = 2, g_gameType = gt,
       g_teams = exampleTeams,
       g_groupings = (if gt = AllVsAll then Some [[''Ann'', ''Bob'', ''Cid'']] else None),
       g_matches = [], g_createdAt = 0 \<rparr>"

text \<open>
  A collation for the examples: strings compared by character code, a shorter string
  before its extensions.
\<close>

fun compareCodes :: "string \<Rightarrow> string \<Rightarrow> int" where
  "compareCodes [] [] = 0"
| "compareCodes [] (_ # _) = - 1"
| "compareCodes (_ # _) [] = 1"
| "compareCodes (x # xs) (y # ys) =
     (if (of_char x :: nat) < of_char y then - 1
      else if (of_char y :: nat) < of_char x then 1
      else compareCodes xs ys)"

text \<open>The order of the team leaderboard: more points first, then the name.\<close>

definition teamRankedBefore ::
  "(string \<Rightarrow> string \<Rightarrow> int) \<Rightarrow> TeamLeaderboardEntry \<Rightarrow> TeamLeaderboardEntry \<Rightarrow> bool" where
  "teamRankedBefore localeCompare a b =
     (e_totalPoints a > e_totalPoints b
      \<or> (e_totalPoints a = e_totalPoints b
          \<and> localeCompare (e_teamName a) (e_teamName b) \<le> 0))"

text \<open>What a team leaderboard entry says about its team.\<close>

definition teamOf :: "TeamLeaderboardEntry \<Rightarrow> string \<times> string \<times> string" where
  "teamOf e = (e_teamId e, e_teamName e, e_teamColor e)"

text \<open>
  The sum-match rule on the totals of one hole. A total is the lowest (highest) when no
  team has a lower (higher) one; it is sole when exactly one team has it. \<open>awardAll\<close>
  gives every team at the lowest total 1 and every team at the highest total -1, and
  nothing when the lowest is the highest; \<open>awardSole\<close> gives the point only to a
  team alone at its extreme.
\<close>

definition isLowest :: "obj \<Rightarrow> int \<Rightarrow> bool" where
  "isLowest tot x = list_all (\<lambda>(k, v). case v of Num y \<Rightarrow> x \<le> y | NaN \<Rightarrow> False) tot"

definition isHighest :: "obj \<Rightarrow> int \<Rightarrow> bool" where
  "isHighest tot x = list_all (\<lambda>(k, v). case v of Num y \<Rightarrow> y \<le> x | NaN \<Rightarrow> False) tot"

definition soleAt :: "obj \<Rightarrow> int \<Rightarrow> bool" where
  "soleAt tot x = (length (filter (\<lambda>(k, v). v = Num x) tot) = 1)"

definition awardAll :: "obj \<Rightarrow> int \<Rightarrow> int" where
  "awardAll tot x =
     (if isLowest tot x \<and> isHighest tot x then 0
      else if isLowest tot x then 1
      else if isHighest tot x then - 1
      else 0)"

definition awardSole :: "obj \<Rightarrow> int \<Rightarrow> int" where
  "awardSole tot x =
     (if isLowest tot x \<and> isHighest tot x then 0
      else if isLowest tot x \<and> soleAt tot x then 1
      else if isHighest tot x \<and> soleAt tot x then - 1
      else 0)"

text \<open>Every value of the object is a number.\<close>

definition numericObj :: "obj \<Rightarrow> bool" where
  "numericObj ob = list_all (\<lambda>(k, v). isNumber v) ob"

text \<open>The invariant of the per-team totals: one key per team, each total a number.\<close>

definition totalsInv :: "Team list \<Rightarrow> obj \<Rightarrow> bool" where
  "totalsInv teams ob \<longleftrightarrow>
     fst ` set ob = tm_id ` set teams \<and> distinct (map fst ob) \<and> numericObj ob"





text \<open>
  Ann's score on hole 2, as a scoring update, and the example tournament after five
  strokes have been recorded for it.
\<close>

definition exampleRecord :: "int \<Rightarrow> ScoringUpdate" where
  "exampleRecord strokes =
     \<lparr> u_player = ''Ann'', u_hole = Some 2, u_strokes = Some strokes, u_action = Score,
       u_rawTranscription = [] \<rparr>"


text \<open>A delete of Ann's score on hole 1, with player and hole given.\<close>

definition exampleDelete :: ScoringUpdate where
  "exampleDelete =
     \<lparr> u_player = ''Ann'', u_hole = Some 1, u_strokes = None, u_action = Delete,
       u_rawTranscription = [] \<rparr>"

text \<open>
  The update makes \<open>processScoringUpdate\<close> push a new player: it is no delete and its
  non-empty player name matches nobody on the roster.
\<close>

definition createsPlayer :: "Tournament \<Rightarrow> ScoringUpdate \<Rightarrow> bool" where
  "createsPlayer t update \<longleftrightarrow>
     u_action update \<noteq> Delete \<and> u_player update \<noteq> []
     \<and> findIndex (nameMatches (u_player update)) (t_players t) = None"

text \<open>What identifies a player and is fixed at setup.\<close>

definition identityOf :: "Player \<Rightarrow> string \<times> string \<times> real option \<times> int option" where
  "identityOf p = (p_id p, p_name p, p_handicap p, p_receivedStrokes p)"

text \<open>A score for Dee, who is not on the roster of the example.\<close>

definition exampleUnknown :: "int option \<Rightarrow> ScoringUpdate" where
  "exampleUnknown strokes =
     \<lparr> u_player = ''Dee'', u_hole = Some 1, u_strokes = strokes, u_action = Score,
       u_rawTranscription = [] \<rparr>"

text \<open>
  The course handicap as the specification writes it, in exact arithmetic on the
  numbers given: \<open>index * slope / 113 + (courseRating - totalPar)\<close>, then rounded to the
  nearest integer and clamped at 0.
\<close>

definition spec_courseHandicap :: "real \<Rightarrow> real \<Rightarrow> real \<Rightarrow> real" where
  "spec_courseHandicap index slope courseRating =
     index * slope / 113 + (courseRating - of_int totalPar)"

definition spec_receivedStrokes :: "real \<Rightarrow> real \<Rightarrow> real \<Rightarrow> int" where
  "spec_receivedStrokes index slope courseRating =
     max 0 (round (spec_courseHandicap index slope courseRating))"

text \<open>
  A score for Bob on hole 25 with -3 strokes, and the example after Ann's 9 on hole 2
  and that score have gone through \<open>processScoringUpdate\<close>.
\<close>

definition exampleOutOfRange :: ScoringUpdate where
  "exampleOutOfRange =
     \<lparr> u_player = ''Bob'', u_hole = Some 25, u_strokes = Some (- 3), u_action = Score,
       u_rawTranscription = [] \<rparr>"

definition exampleUnvalidated :: Tournament where
  "exampleUnvalidated =
     snd (processScoringUpdate_tournament ''n'' 600
            (snd (processScoringUpdate_tournament ''n'' 500 exampleTournament (exampleRecord 9)))
            exampleOutOfRange)"

section \<open>Stableford points: agreement with the reference, range, monotonicity\<close>

lemma js_rem_nonneg: "0 \<le> a \<Longrightarrow> js_rem a 18 = a mod 18"
  by (cases "a = 0") (simp_all add: js_rem_def)

lemma array_get_standardIndex:
  "1 \<le> hole \<Longrightarrow> hole \<le> 18 \<Longrightarrow>
   array_get standardIndex (hole - 1) = Some (standardIndex ! nat (hole - 1))"
  by (simp add: array_get_def standardIndex_def)

text \<open>
  C2. For a hole in 1..18 and a non-negative number of received strokes,
  \<open>calculateStablefordPoints\<close> equals the reference definition (allowance
  \<open>floor(R / 18) + (1 if idx \<le> R mod 18 else 0)\<close> with \<open>idx\<close> the hole's stroke index,
  then the 4/3/2/1/0 table). For all arguments the result is one of 0, 1, 2, 3, 4, and it
  does not increase when the strokes increase with the other arguments fixed.
\<close>

theorem C2_stableford_reference:
  "(0 \<le> R \<and> 1 \<le> hole \<and> hole \<le> 18 \<longrightarrow>
      calculateStablefordPoints strokes par R hole =
      spec_stableford strokes par R (standardIndex ! nat (hole - 1)))
   \<and> calculateStablefordPoints strokes par R hole \<in> {0, 1, 2, 3, 4}
   \<and> (strokes \<le> strokes' \<longrightarrow>
        calculateStablefordPoints strokes' par R hole
          \<le> calculateStablefordPoints strokes par R hole)"
proof (intro conjI impI)
  assume "0 \<le> R \<and> 1 \<le> hole \<and> hole \<le> 18"
  then show "calculateStablefordPoints strokes par R hole =
      spec_stableford strokes par R (standardIndex ! nat (hole - 1))"
    by (simp add: calculateStablefordPoints_def spec_stableford_def spec_allowance_def
        js_rem_nonneg array_get_standardIndex Let_def)
next
  show "calculateStablefordPoints strokes par R hole \<in> {0, 1, 2, 3, 4}"
    by (simp add: calculateStablefordPoints_def Let_def)
next
  assume "strokes \<le> strokes'"
  then show "calculateStablefordPoints strokes' par R hole
          \<le> calculateStablefordPoints strokes par R hole"
    by (simp add: calculateStablefordPoints_def Let_def)
qed

theorem C2_stableford_reference_witness:
  "(0 \<le> (11::int) \<and> 1 \<le> (1::int) \<and> (1::int) \<le> 18)
   \<and> calculateStablefordPoints 4 4 11 1 = 3
   \<and> spec_stableford 4 4 11 (standardIndex ! nat (1 - 1)) = 3
   \<and> (4::int) \<le> 6
   \<and> calculateStablefordPoints 6 4 11 1 = 1"
proof -
  have a: "calculateStablefordPoints 4 4 11 1 = 3"
    by (simp add: calculateStablefordPoints_def array_get_def standardIndex_def js_rem_def)
  have b: "calculateStablefordPoints 6 4 11 1 = 1"
    by (simp add: calculateStablefordPoints_def array_get_def standardIndex_def js_rem_def)
  from C2_stableford_reference [of 11 1 4 4 6] a b show ?thesis by simp
qed

section \<open>The sort and the individual leaderboard\<close>

lemma set_insert_by: "set (insert_by cmp x ys) = insert x (set ys)"
  by (induction ys) auto

lemma mset_insert_by: "mset (insert_by cmp x ys) = add_mset x (mset ys)"
  by (induction ys) auto

lemma mset_array_sort: "mset (array_sort cmp xs) = mset xs"
  unfolding array_sort_def by (induction xs) (auto simp: mset_insert_by)

lemma set_array_sort: "set (array_sort cmp xs) = set xs"
  by (metis mset_array_sort set_mset_mset)

lemma length_array_sort: "length (array_sort cmp xs) = length xs"
  by (metis mset_array_sort size_mset)


lemma consistent_total:
  "consistent_on A cmp \<Longrightarrow> a \<in> A \<Longrightarrow> b \<in> A \<Longrightarrow> \<not> cmp a b \<le> 0 \<Longrightarrow> cmp b a \<le> 0"
  unfolding consistent_on_def by blast

lemma consistent_trans:
  "consistent_on A cmp \<Longrightarrow> a \<in> A \<Longrightarrow> b \<in> A \<Longrightarrow> c \<in> A \<Longrightarrow>
   cmp a b \<le> 0 \<Longrightarrow> cmp b c \<le> 0 \<Longrightarrow> cmp a c \<le> 0"
  unfolding consistent_on_def by blast

lemma sorted_insert_by:
  "consistent_on A cmp \<Longrightarrow> x \<in> A \<Longrightarrow> set ys \<subseteq> A \<Longrightarrow>
   sorted_wrt (\<lambda>a b. cmp a b \<le> 0) ys \<Longrightarrow>
   sorted_wrt (\<lambda>a b. cmp a b \<le> 0) (insert_by cmp x ys)"
proof (induction ys)
  case Nil
  then show ?case by simp
next
  case (Cons y ys)
  have yA: "y \<in> A" and ysA: "set ys \<subseteq> A" using Cons.prems(3) by simp_all
  have sy: "\<forall>z\<in>set ys. cmp y z \<le> 0" and ss: "sorted_wrt (\<lambda>a b. cmp a b \<le> 0) ys"
    using Cons.prems(4) by simp_all
  show ?case
  proof (cases "cmp x y \<le> 0")
    case True
    have "\<forall>z\<in>set ys. cmp x z \<le> 0"
    proof
      fix z assume z: "z \<in> set ys"
      then have "z \<in> A" using ysA by blast
      moreover have "cmp y z \<le> 0" using sy z by blast
      ultimately show "cmp x z \<le> 0"
        using consistent_trans [OF Cons.prems(1) Cons.prems(2) yA _ True] by blast
    qed
    then show ?thesis using True sy ss by simp
  next
    case False
    have yx: "cmp y x \<le> 0"
      using consistent_total [OF Cons.prems(1) Cons.prems(2) yA False] .
    have "sorted_wrt (\<lambda>a b. cmp a b \<le> 0) (insert_by cmp x ys)"
      using Cons.IH [OF Cons.prems(1) Cons.prems(2) ysA ss] .
    then show ?thesis using False yx sy by (simp add: set_insert_by)
  qed
qed

lemma sorted_array_sort:
  "consistent_on A cmp \<Longrightarrow> set xs \<subseteq> A \<Longrightarrow>
   sorted_wrt (\<lambda>a b. cmp a b \<le> 0) (array_sort cmp xs)"
proof (induction xs)
  case Nil
  then show ?case by (simp add: array_sort_def)
next
  case (Cons x xs)
  have xA: "x \<in> A" and xsA: "set xs \<subseteq> A" using Cons.prems(2) by simp_all
  have "sorted_wrt (\<lambda>a b. cmp a b \<le> 0) (array_sort cmp xs)"
    using Cons.IH [OF Cons.prems(1) xsA] .
  moreover have "set (array_sort cmp xs) \<subseteq> A"
    using xsA by (simp add: set_array_sort)
  ultimately have "sorted_wrt (\<lambda>a b. cmp a b \<le> 0) (insert_by cmp x (array_sort cmp xs))"
    using sorted_insert_by [OF Cons.prems(1) xA] by blast
  then show ?case by (simp add: array_sort_def)
qed

lemma isNumber_conv: "isNumber v \<longleftrightarrow> (\<exists>x. v = Num x)"
  by (cases v) simp_all

lemma foldl_jadd_num:
  "isNumber acc \<Longrightarrow> list_all (\<lambda>s. isNumber (f s)) xs \<Longrightarrow> isNumber (foldl (\<lambda>sum s. jadd sum (f s)) acc xs)"
proof (induction xs arbitrary: acc)
  case Nil
  then show ?case by simp
next
  case (Cons x xs)
  from Cons.prems obtain a b where "acc = Num a" "f x = Num b"
    by (auto simp: isNumber_conv)
  then have "isNumber (jadd acc (f x))" by simp
  with Cons show ?case by simp
qed

lemma list_all_filter: "list_all P xs \<Longrightarrow> list_all P (filter Q xs)"
  by (induction xs) auto

lemma currentScore_num:
  assumes "wellFormedLedger t"
  shows "isNumber (l_currentScore (leaderboardEntry t r p))"
proof -
  let ?cs = "filter (\<lambda>s. s_playerId s = p_id p \<and> s_round s =
      (case r of Some r' \<Rightarrow> if r' \<noteq> 0 then r' else t_currentRound t | None \<Rightarrow> t_currentRound t))
      (t_scores t)"
  have a: "list_all (\<lambda>s. isNumber (s_strokes s)) ?cs" and b: "list_all (\<lambda>s. isNumber (s_par s)) ?cs"
    using assms unfolding wellFormedLedger_def
    by (auto simp: list_all_iff)
  have "isNumber (foldl (\<lambda>sum s. jadd sum (s_strokes s)) (Num 0) ?cs)"
    by (rule foldl_jadd_num) (simp_all add: a)
  moreover have "isNumber (foldl (\<lambda>sum s. jadd sum (s_par s)) (Num 0) ?cs)"
    by (rule foldl_jadd_num) (simp_all add: b)
  ultimately obtain x y where
    "foldl (\<lambda>sum s. jadd sum (s_strokes s)) (Num 0) ?cs = Num x"
    "foldl (\<lambda>sum s. jadd sum (s_par s)) (Num 0) ?cs = Num y"
    by (auto simp: isNumber_conv)
  then show ?thesis
    by (simp add: leaderboardEntry_def Let_def split_beta)
qed

lemma compare_rankedBefore:
  "isNumber (l_currentScore a) \<Longrightarrow> isNumber (l_currentScore b) \<Longrightarrow>
   sort_value (compareEntries a b) \<le> 0 \<longleftrightarrow> rankedBefore a b"
  by (auto simp: isNumber_conv compareEntries_def rankedBefore_def)

lemma compareEntries_consistent:
  "consistent_on {e. isNumber (l_currentScore e)} (\<lambda>a b. sort_value (compareEntries a b))"
  unfolding consistent_on_def
  by (auto simp: isNumber_conv compareEntries_def)

lemma positions_upto: "map (\<lambda>i. int i + 1) [0..<n] = [1..int n]"
proof (induction n)
  case 0
  then show ?case by simp
next
  case (Suc n)
  have "[1..int (Suc n)] = [1..int n] @ [int n + 1]"
    using upto_rec2 [of 1 "int n + 1"] by (simp add: add.commute)
  with Suc show ?case by simp
qed

lemma enumerate_positions:
  "map l_position (map (\<lambda>(index, entry). entry\<lparr>l_position := int index + 1\<rparr>) (enumerate n es))
     = map (\<lambda>i. int i + 1) [n..<n + length es]"
proof (induction es arbitrary: n)
  case Nil
  then show ?case by simp
next
  case (Cons e es)
  have "n < n + length (e # es)" by simp
  from upt_conv_Cons [OF this]
  have "[n..<n + length (e # es)] = n # [Suc n..<Suc n + length es]" by simp
  with Cons [of "Suc n"] show ?case by simp
qed

lemma assignPositions_positions:
  "map l_position (assignPositions es) = [1..int (length es)]"
  using enumerate_positions [of 0 es] by (simp add: assignPositions_def positions_upto)

lemma enumerate_keep:
  assumes "\<And>e v. f (e\<lparr>l_position := v\<rparr>) = f e"
  shows "map f (map (\<lambda>(index, entry). entry\<lparr>l_position := int index + 1\<rparr>) (enumerate n es))
           = map f es"
  by (induction es arbitrary: n) (simp_all add: assms)

lemma assignPositions_keep:
  assumes "\<And>e v. f (e\<lparr>l_position := v\<rparr>) = f e"
  shows "map f (assignPositions es) = map f es"
  unfolding assignPositions_def by (rule enumerate_keep) (rule assms)

lemma sorted_wrt_assignPositions:
  "sorted_wrt rankedBefore (assignPositions es) = sorted_wrt rankedBefore es"
proof -
  define k where "k = (\<lambda>e::LeaderboardEntry. (l_currentScore e, l_holesCompleted e))"
  define R where "R = (\<lambda>p q. case (fst p, fst q) of
              (Num x, Num y) \<Rightarrow> x < y \<or> (x = y \<and> (snd q :: int) \<le> snd p) | _ \<Rightarrow> False)"
  have eq: "(\<lambda>a b. R (k a) (k b)) = rankedBefore"
    by (auto simp: fun_eq_iff rankedBefore_def R_def k_def split: jsnum.splits)
  have conv: "sorted_wrt rankedBefore xs = sorted_wrt R (map k xs)" for xs
    by (simp only: sorted_wrt_map eq)
  have "map k (assignPositions es) = map k es"
    by (rule assignPositions_keep) (simp add: k_def)
  then show ?thesis by (simp only: conv)
qed

text \<open>
  For a tournament whose ledger entries hold numbers for strokes and par, the list
  returned by \<open>generateLeaderboard\<close> is sorted by \<open>currentScore\<close> ascending with ties
  broken by \<open>holesCompleted\<close> descending, its \<open>position\<close> fields are exactly 1, 2, ..., n
  for the n players of the tournament (sequential, also among tied players), and it
  holds one entry per player. The positions and the one entry per player need no
  condition on the ledger; they are part of this lemma to have the three together.
\<close>

lemma leaderboard_ranking_on_numbers:
  assumes "ts tournamentId = Some t" and "wellFormedLedger t"
  shows "sorted_wrt rankedBefore (generateLeaderboard ts tournamentId selectedRound)
       \<and> map l_position (generateLeaderboard ts tournamentId selectedRound)
           = [1 .. int (length (t_players t))]
       \<and> mset (map l_playerId (generateLeaderboard ts tournamentId selectedRound))
           = mset (map p_id (t_players t))"
proof -
  let ?es = "map (leaderboardEntry t selectedRound) (t_players t)"
  let ?cmp = "\<lambda>a b. sort_value (compareEntries a b)"
  let ?A = "{e. isNumber (l_currentScore e)}"
  have g: "generateLeaderboard ts tournamentId selectedRound
             = assignPositions (array_sort ?cmp ?es)"
    using assms(1) by (simp add: generateLeaderboard_def)
  have inA: "set ?es \<subseteq> ?A"
    using currentScore_num [OF assms(2)] by auto
  have s1: "sorted_wrt (\<lambda>a b. ?cmp a b \<le> 0) (array_sort ?cmp ?es)"
    by (rule sorted_array_sort [OF compareEntries_consistent inA])
  have "sorted_wrt rankedBefore (array_sort ?cmp ?es)"
  proof (rule sorted_wrt_mono_rel [OF _ s1])
    fix a b
    assume "a \<in> set (array_sort ?cmp ?es)" "b \<in> set (array_sort ?cmp ?es)"
      and le: "?cmp a b \<le> 0"
    then have "isNumber (l_currentScore a)" "isNumber (l_currentScore b)"
      using inA by (auto simp: set_array_sort)
    then show "rankedBefore a b"
      using le compare_rankedBefore by blast
  qed
  then have A: "sorted_wrt rankedBefore (generateLeaderboard ts tournamentId selectedRound)"
    by (simp add: g sorted_wrt_assignPositions)
  have B: "map l_position (generateLeaderboard ts tournamentId selectedRound)
           = [1 .. int (length (t_players t))]"
    by (simp add: g assignPositions_positions length_array_sort)
  have "map l_playerId (assignPositions (array_sort ?cmp ?es)) = map l_playerId (array_sort ?cmp ?es)"
    by (rule assignPositions_keep) simp
  then have "mset (map l_playerId (generateLeaderboard ts tournamentId selectedRound))
        = image_mset l_playerId (mset (array_sort ?cmp ?es))"
    by (simp add: g)
  also have "\<dots> = image_mset l_playerId (mset ?es)"
    by (simp only: mset_array_sort)
  also have "\<dots> = mset (map p_id (t_players t))"
    by (simp add: leaderboardEntry_def Let_def split_beta image_mset.compositionality comp_def
        flip: mset_map)
  finally have C: "mset (map l_playerId (generateLeaderboard ts tournamentId selectedRound))
           = mset (map p_id (t_players t))" .
  from A B C show ?thesis by blast
qed

lemma leaderboard_ranking_example:
  "[''t1'' \<mapsto> exampleTournament] ''t1'' = Some exampleTournament
   \<and> wellFormedLedger exampleTournament
   \<and> sorted_wrt rankedBefore (generateLeaderboard [''t1'' \<mapsto> exampleTournament] ''t1'' None)
   \<and> map l_position (generateLeaderboard [''t1'' \<mapsto> exampleTournament] ''t1'' None) = [1, 2, 3]
   \<and> map l_playerId (generateLeaderboard [''t1'' \<mapsto> exampleTournament] ''t1'' None)
       = [''p1'', ''p3'', ''p2'']"
proof -
  have h1: "[''t1'' \<mapsto> exampleTournament] ''t1'' = Some exampleTournament" by simp
  have h2: "wellFormedLedger exampleTournament"
    by (simp add: wellFormedLedger_def exampleTournament_def)
  have len: "[1 .. int (length (t_players exampleTournament))] = [1, 2, 3]"
    by (simp add: exampleTournament_def upto.simps)
  have ids: "map l_playerId (generateLeaderboard [''t1'' \<mapsto> exampleTournament] ''t1'' None)
       = [''p1'', ''p3'', ''p2'']"
    by (simp add: generateLeaderboard_def exampleTournament_def leaderboardEntry_def Let_def
        holeArrays_def array_sort_def compareEntries_def assignPositions_def split_beta)
  from leaderboard_ranking_on_numbers [where ts = "[''t1'' \<mapsto> exampleTournament]"
      and tournamentId = "''t1''" and t = exampleTournament and selectedRound = None, OF h1 h2]
    h1 h2 len ids
  show ?thesis by simp
qed

text \<open>
  C3. The claim is for every tournament, and the ledger is not validated: after
  Ann's 9 on hole 2, the update for Bob on hole 25 with -3 strokes enters the ledger
  with no par, so Bob's \<open>currentScore\<close> is \<open>NaN\<close>. The comparator then returns \<open>NaN\<close> for
  Ann against Bob and for Bob against Cid, the sort takes the array as already in
  order, and the leaderboard is Ann on +4 at position 1, Bob at 2, Cid on -1 at 3:
  the player with the lowest score is last. The positions are still 1, 2, 3. The
  first five conjuncts are the ledger the two updates leave.
\<close>

theorem C3_unsorted_after_unvalidated_score:
  "map s_playerId (t_scores exampleUnvalidated) = [''p1'', ''p2'', ''p1'', ''p3'', ''p1'', ''p2'']
   \<and> map s_hole (t_scores exampleUnvalidated) = [1, 1, 1, 1, 2, 25]
   \<and> map s_round (t_scores exampleUnvalidated) = [1, 2, 2, 2, 2, 2]
   \<and> map s_strokes (t_scores exampleUnvalidated)
     = [Num 5, Num 5, Num 3, Num 3, Num 9, Num (- 3)]
   \<and> map s_par (t_scores exampleUnvalidated) = [Num 4, Num 4, Num 4, Num 4, Num 4, NaN]
   \<and> map l_playerId (generateLeaderboard [''t1'' \<mapsto> exampleUnvalidated] ''t1'' None)
     = [''p1'', ''p2'', ''p3'']
   \<and> map l_currentScore (generateLeaderboard [''t1'' \<mapsto> exampleUnvalidated] ''t1'' None)
     = [Num 4, NaN, Num (- 1)]
   \<and> map l_holesCompleted (generateLeaderboard [''t1'' \<mapsto> exampleUnvalidated] ''t1'' None)
     = [2, 2, 1]
   \<and> map l_position (generateLeaderboard [''t1'' \<mapsto> exampleUnvalidated] ''t1'' None)
     = [1, 2, 3]
   \<and> \<not> sorted_wrt rankedBefore (generateLeaderboard [''t1'' \<mapsto> exampleUnvalidated] ''t1'' None)"
  by code_simp

section \<open>The team leaderboard\<close>

lemma compareTeams_le:
  "compareTeams lc a b \<le> 0 \<longleftrightarrow> teamRankedBefore lc a b"
  by (auto simp: compareTeams_def teamRankedBefore_def)

lemma compareTeams_consistent:
  assumes "consistent_on UNIV lc"
  shows "consistent_on UNIV (compareTeams lc)"
proof -
  have tot: "lc x y \<le> 0 \<or> lc y x \<le> 0" for x y
    using assms unfolding consistent_on_def by blast
  have tr: "lc x y \<le> 0 \<Longrightarrow> lc y z \<le> 0 \<Longrightarrow> lc x z \<le> 0" for x y z
    using assms unfolding consistent_on_def by blast
  show ?thesis
    unfolding consistent_on_def
  proof (intro conjI ballI impI)
    fix a b
    show "compareTeams lc a b \<le> 0 \<or> compareTeams lc b a \<le> 0"
      using tot [of "e_teamName a" "e_teamName b"] by (auto simp: compareTeams_def)
  next
    fix a b c
    assume ab: "compareTeams lc a b \<le> 0" and bc: "compareTeams lc b c \<le> 0"
    show "compareTeams lc a c \<le> 0"
    proof (cases "e_totalPoints a = e_totalPoints b \<and> e_totalPoints b = e_totalPoints c")
      case True
      with ab bc have "lc (e_teamName a) (e_teamName b) \<le> 0" "lc (e_teamName b) (e_teamName c) \<le> 0"
        by (simp_all add: compareTeams_def)
      then have "lc (e_teamName a) (e_teamName c) \<le> 0" by (rule tr)
      with True show ?thesis by (simp add: compareTeams_def)
    next
      case False
      from ab have 1: "e_totalPoints b \<le> e_totalPoints a"
        by (simp add: compareTeams_def split: if_splits)
      from bc have 2: "e_totalPoints c \<le> e_totalPoints b"
        by (simp add: compareTeams_def split: if_splits)
      from 1 2 False have "e_totalPoints c < e_totalPoints a" by linarith
      then show ?thesis by (simp add: compareTeams_def)
    qed
  qed
qed

lemma team_enumerate_positions:
  "map e_position (map (\<lambda>(index, entry). entry\<lparr>e_position := int index + 1\<rparr>) (enumerate n es))
     = map (\<lambda>i. int i + 1) [n..<n + length es]"
proof (induction es arbitrary: n)
  case Nil
  then show ?case by simp
next
  case (Cons e es)
  have "n < n + length (e # es)" by simp
  from upt_conv_Cons [OF this]
  have "[n..<n + length (e # es)] = n # [Suc n..<Suc n + length es]" by simp
  with Cons [of "Suc n"] show ?case by simp
qed

lemma assignTeamPositions_positions:
  "map e_position (assignTeamPositions es) = [1..int (length es)]"
  using team_enumerate_positions [of 0 es] by (simp add: assignTeamPositions_def positions_upto)

lemma assignTeamPositions_keep:
  assumes "\<And>e v. f (e\<lparr>e_position := v\<rparr>) = f e"
  shows "map f (assignTeamPositions es) = map f es"
proof -
  have "map f (map (\<lambda>(index, entry). entry\<lparr>e_position := int index + 1\<rparr>) (enumerate n es))
           = map f es" for n
    by (induction es arbitrary: n) (simp_all add: assms)
  then show ?thesis by (simp add: assignTeamPositions_def)
qed

lemma sorted_wrt_assignTeamPositions:
  "sorted_wrt (teamRankedBefore lc) (assignTeamPositions es)
     = sorted_wrt (teamRankedBefore lc) es"
proof -
  define k where "k = (\<lambda>e::TeamLeaderboardEntry. (e_totalPoints e, e_teamName e))"
  define R where "R = (\<lambda>p q. (fst p :: int) > fst q \<or> (fst p = fst q \<and> lc (snd p) (snd q) \<le> 0))"
  have eq: "(\<lambda>a b. R (k a) (k b)) = teamRankedBefore lc"
    by (auto simp: fun_eq_iff teamRankedBefore_def R_def k_def)
  have conv: "sorted_wrt (teamRankedBefore lc) xs = sorted_wrt R (map k xs)" for xs
    by (simp only: sorted_wrt_map eq)
  have "map k (assignTeamPositions es) = map k es"
    by (rule assignTeamPositions_keep) (simp add: k_def)
  then show ?thesis by (simp only: conv)
qed

lemma compareCodes_refl: "compareCodes a a = 0"
  by (induction a) simp_all

lemma compareCodes_total: "compareCodes a b \<le> 0 \<or> compareCodes b a \<le> 0"
  by (induction a b rule: compareCodes.induct) auto

lemma compareCodes_trans:
  "compareCodes a b \<le> 0 \<Longrightarrow> compareCodes b c \<le> 0 \<Longrightarrow> compareCodes a c \<le> 0"
proof (induction a b arbitrary: c rule: compareCodes.induct)
  case 1
  then show ?case by simp
next
  case (2 y ys)
  then show ?case by (cases c) simp_all
next
  case (3 x xs)
  then show ?case by simp
next
  case (4 x xs y ys)
  show ?case
  proof (cases c)
    case Nil
    with "4.prems"(2) show ?thesis by simp
  next
    case (Cons z zs)
    from "4.prems"(1) have xy: "(of_char x :: nat) \<le> of_char y"
      by (simp split: if_splits)
    from "4.prems"(2) Cons have yz: "(of_char y :: nat) \<le> of_char z"
      by (simp split: if_splits)
    show ?thesis
    proof (cases "(of_char x :: nat) < of_char z")
      case True
      then show ?thesis by (simp add: Cons)
    next
      case False
      with xy yz have eq: "(of_char x :: nat) = of_char y" "(of_char y :: nat) = of_char z"
        by linarith+
      with "4.prems" Cons have "compareCodes xs ys \<le> 0" "compareCodes ys zs \<le> 0"
        by simp_all
      with "4.IH" [of zs] eq have "compareCodes xs zs \<le> 0" by simp
      with eq show ?thesis by (simp add: Cons)
    qed
  qed
qed

lemma compareCodes_consistent: "consistent_on UNIV compareCodes"
  unfolding consistent_on_def using compareCodes_total compareCodes_trans by blast

text \<open>
  C8 (as amended). For a sum-match sidegame and a saved active tournament,
  \<open>generateTeamLeaderboard\<close> returns one entry per team of the sidegame's roster,
  sorted by \<open>totalPoints\<close> descending with ties broken by \<open>localeCompare\<close> on the team
  name ascending, with \<open>position\<close> 1, 2, ..., n in that order. For an all-vs-all
  sidegame it returns the empty list.
\<close>

theorem C8_team_leaderboard:
  "(g_gameType sg = SumMatch \<and> consistent_on UNIV localeCompare \<longrightarrow>
      sorted_wrt (teamRankedBefore localeCompare)
        (generateTeamLeaderboard localeCompare teams (Some sg) (Some t))
      \<and> map e_position (generateTeamLeaderboard localeCompare teams (Some sg) (Some t))
          = [1 .. int (length (g_teams sg))]
      \<and> mset (map teamOf (generateTeamLeaderboard localeCompare teams (Some sg) (Some t)))
          = mset (map (\<lambda>team. (tm_id team, tm_name team, tm_color team)) (g_teams sg)))
   \<and> (g_gameType sg = AllVsAll \<longrightarrow>
        generateTeamLeaderboard localeCompare teams (Some sg) tournament = [])"
proof (intro conjI impI)
  assume "g_gameType sg = AllVsAll"
  then show "generateTeamLeaderboard localeCompare teams (Some sg) tournament = []"
    by (simp add: generateTeamLeaderboard_def)
next
  assume a: "g_gameType sg = SumMatch \<and> consistent_on UNIV localeCompare"
  define total where "total = fold (\<lambda>hole total. holeAward (holeTotals teams t hole) total)
                               (holesWithScores t) (zeroPerTeam (g_teams sg))"
  define es where "es = map (\<lambda>team. \<lparr> e_teamId = tm_id team, e_teamName = tm_name team,
                                         e_teamColor = tm_color team,
                                         e_totalPoints = pointsOrZero total (tm_id team),
                                         e_matchesPlayed = int (length (holesWithScores t)),
                                         e_position = 0 \<rparr>) (g_teams sg)"
  have g: "generateTeamLeaderboard localeCompare teams (Some sg) (Some t)
             = assignTeamPositions (array_sort (compareTeams localeCompare) es)"
    using a by (simp add: generateTeamLeaderboard_def Let_def es_def total_def)
  have "sorted_wrt (\<lambda>a b. compareTeams localeCompare a b \<le> 0)
          (array_sort (compareTeams localeCompare) es)"
    by (rule sorted_array_sort [OF compareTeams_consistent]) (use a in simp_all)
  then show "sorted_wrt (teamRankedBefore localeCompare)
        (generateTeamLeaderboard localeCompare teams (Some sg) (Some t))"
    by (simp add: g sorted_wrt_assignTeamPositions compareTeams_le)
  show "map e_position (generateTeamLeaderboard localeCompare teams (Some sg) (Some t))
          = [1 .. int (length (g_teams sg))]"
    by (simp add: g assignTeamPositions_positions length_array_sort es_def)
  have "map teamOf (assignTeamPositions (array_sort (compareTeams localeCompare) es))
          = map teamOf (array_sort (compareTeams localeCompare) es)"
    by (rule assignTeamPositions_keep) (simp add: teamOf_def)
  then have "mset (map teamOf (generateTeamLeaderboard localeCompare teams (Some sg) (Some t)))
          = image_mset teamOf (mset (array_sort (compareTeams localeCompare) es))"
    by (simp add: g)
  also have "\<dots> = image_mset teamOf (mset es)"
    by (simp only: mset_array_sort)
  also have "\<dots> = mset (map (\<lambda>team. (tm_id team, tm_name team, tm_color team)) (g_teams sg))"
    by (simp add: es_def teamOf_def image_mset.compositionality comp_def flip: mset_map)
  finally show "mset (map teamOf (generateTeamLeaderboard localeCompare teams (Some sg) (Some t)))
          = mset (map (\<lambda>team. (tm_id team, tm_name team, tm_color team)) (g_teams sg))" .
qed

theorem C8_team_leaderboard_witness:
  "(g_gameType (exampleSidegame SumMatch) = SumMatch \<and> consistent_on UNIV compareCodes)
   \<and> sorted_wrt (teamRankedBefore compareCodes)
        (generateTeamLeaderboard compareCodes exampleTeams (Some (exampleSidegame SumMatch))
           (Some exampleTournament))
   \<and> map (\<lambda>e. (e_teamId e, e_totalPoints e, e_position e))
        (generateTeamLeaderboard compareCodes exampleTeams (Some (exampleSidegame SumMatch))
           (Some exampleTournament))
       = [(''red'', 0, 1), (''white'', 0, 2), (''blue'', - 1, 3)]
   \<and> g_gameType (exampleSidegame AllVsAll) = AllVsAll
   \<and> generateTeamLeaderboard compareCodes exampleTeams (Some (exampleSidegame AllVsAll)) None
       = []"
proof -
  have h: "g_gameType (exampleSidegame SumMatch) = SumMatch \<and> consistent_on UNIV compareCodes"
    by (simp add: exampleSidegame_def compareCodes_consistent)
  have h': "g_gameType (exampleSidegame AllVsAll) = AllVsAll"
    by (simp add: exampleSidegame_def)
  have v: "map (\<lambda>e. (e_teamId e, e_totalPoints e, e_position e))
        (generateTeamLeaderboard compareCodes exampleTeams (Some (exampleSidegame SumMatch))
           (Some exampleTournament))
       = [(''red'', 0, 1), (''white'', 0, 2), (''blue'', - 1, 3)]"
    by code_simp
  from C8_team_leaderboard [where sg = "exampleSidegame SumMatch"
      and localeCompare = compareCodes and teams = exampleTeams and t = exampleTournament]
    C8_team_leaderboard [where sg = "exampleSidegame AllVsAll"
      and localeCompare = compareCodes and teams = exampleTeams and tournament = None]
    h h' v
  show ?thesis by blast
qed

text \<open>
  C8 as stated fails for an all-vs-all sidegame: the roster has three teams and the
  leaderboard is empty.
\<close>

theorem C8_allVsAll_counterexample:
  "g_gameType (exampleSidegame AllVsAll) = AllVsAll
   \<and> length (g_teams (exampleSidegame AllVsAll)) = 3
   \<and> generateTeamLeaderboard compareCodes exampleTeams (Some (exampleSidegame AllVsAll))
        (Some exampleTournament) = []"
  by (simp add: generateTeamLeaderboard_def exampleSidegame_def exampleTeams_def)

section \<open>The sum-match award\<close>

lemma map_of_obj_set: "map_of (obj_set ob k v) = (map_of ob)(k \<mapsto> v)"
  by (simp add: obj_set_def update_conv')

lemma keys_obj_set: "fst ` set (obj_set ob k v) = insert k (fst ` set ob)"
  using dom_update [of k v ob] by (simp add: obj_set_def dom_map_of_conv_image_fst)

lemma distinct_obj_set: "distinct (map fst ob) \<Longrightarrow> distinct (map fst (obj_set ob k v))"
  by (simp add: obj_set_def distinct_update)

lemma numeric_obj_set: "numericObj ob \<Longrightarrow> isNumber v \<Longrightarrow> numericObj (obj_set ob k v)"
  by (induction ob) (auto simp: obj_set_def numericObj_def)

lemma map_of_obj_add:
  "map_of (obj_add ob w d) k =
     (if k = w then Some (case map_of ob w of Some v \<Rightarrow> jadd v d | None \<Rightarrow> NaN)
      else map_of ob k)"
  by (simp add: obj_add_def map_of_obj_set)

lemma keys_obj_add: "fst ` set (obj_add ob k d) = insert k (fst ` set ob)"
  by (simp add: obj_add_def keys_obj_set)

lemma distinct_obj_add: "distinct (map fst ob) \<Longrightarrow> distinct (map fst (obj_add ob k d))"
  by (simp add: obj_add_def distinct_obj_set)

lemma numeric_lookup:
  "numericObj ob \<Longrightarrow> map_of ob k = Some v \<Longrightarrow> isNumber v"
  by (auto simp: numericObj_def list_all_iff dest: map_of_SomeD)

lemma numeric_obj_add:
  assumes "numericObj ob" "isNumber d" "k \<in> fst ` set ob"
  shows "numericObj (obj_add ob k d)"
proof -
  from assms(3) obtain v where v: "map_of ob k = Some v"
    by (metis map_of_eq_None_iff not_Some_eq)
  with assms(1) have "isNumber v" by (rule numeric_lookup)
  with assms(2) have "isNumber (jadd v d)" by (cases v; cases d) simp_all
  with assms(1) v show ?thesis by (simp add: obj_add_def numeric_obj_set)
qed

lemma fold_zero_keys:
  "fst ` set (fold (\<lambda>team ob. obj_set ob (tm_id team) (Num 0)) teams ob)
     = fst ` set ob \<union> tm_id ` set teams"
  by (induction teams arbitrary: ob) (auto simp: keys_obj_set)

lemma fold_zero_distinct:
  "distinct (map fst ob) \<Longrightarrow>
   distinct (map fst (fold (\<lambda>team ob. obj_set ob (tm_id team) (Num 0)) teams ob))"
  by (induction teams arbitrary: ob) (simp_all add: distinct_obj_set)

lemma fold_zero_numeric:
  "numericObj ob \<Longrightarrow>
   numericObj (fold (\<lambda>team ob. obj_set ob (tm_id team) (Num 0)) teams ob)"
  by (induction teams arbitrary: ob) (simp_all add: numeric_obj_set)

lemma fold_zero_map_of:
  "map_of (fold (\<lambda>team ob. obj_set ob (tm_id team) (Num 0)) teams ob) k
     = (if k \<in> tm_id ` set teams then Some (Num 0) else map_of ob k)"
  by (induction teams arbitrary: ob) (auto simp: map_of_obj_set)

lemma zeroPerTeam_inv: "totalsInv teams (zeroPerTeam teams)"
proof -
  have "numericObj []" by (simp add: numericObj_def)
  then show ?thesis
    unfolding totalsInv_def zeroPerTeam_def
    by (simp add: fold_zero_keys fold_zero_distinct fold_zero_numeric)
qed

lemma zeroPerTeam_map_of:
  "map_of (zeroPerTeam teams) k = (if k \<in> tm_id ` set teams then Some (Num 0) else None)"
  by (simp add: zeroPerTeam_def fold_zero_map_of)

lemma getPlayerTeam_mem: "getPlayerTeam teams n = Some team \<Longrightarrow> team \<in> set teams"
  unfolding getPlayerTeam_def by (auto simp: find_Some_iff)

lemma totalsInv_obj_add:
  "totalsInv teams ob \<Longrightarrow> team \<in> set teams \<Longrightarrow> isNumber d \<Longrightarrow>
   totalsInv teams (obj_add ob (tm_id team) d)"
  unfolding totalsInv_def
  by (auto simp: keys_obj_add distinct_obj_add intro!: numeric_obj_add)

lemma sumMatchTotals_inv:
  assumes "numericObj holeResults"
  shows "totalsInv teams (sumMatchTotals teams holeResults hole)"
proof -
  have "totalsInv teams ob \<Longrightarrow> numericObj rs \<Longrightarrow>
        totalsInv teams (fold (\<lambda>(playerName, strokesVsPar) teamStrokesDifference.
             case getPlayerTeam teams playerName of
               None \<Rightarrow> teamStrokesDifference
             | Some team \<Rightarrow>
                 if countsOnHole team playerName hole
                 then obj_add teamStrokesDifference (tm_id team) strokesVsPar
                 else teamStrokesDifference) rs ob)" for rs ob
  proof (induction rs arbitrary: ob)
    case Nil
    then show ?case by simp
  next
    case (Cons r rs)
    obtain n v where r: "r = (n, v)" by (cases r)
    from Cons.prems(2) r have v: "isNumber v" and rs: "numericObj rs"
      by (simp_all add: numericObj_def)
    have "totalsInv teams (case getPlayerTeam teams n of
               None \<Rightarrow> ob
             | Some team \<Rightarrow> if countsOnHole team n hole then obj_add ob (tm_id team) v else ob)"
      using Cons.prems(1) v
      by (auto split: option.splits intro: totalsInv_obj_add dest: getPlayerTeam_mem)
    from Cons.IH [OF this rs] show ?case by (simp add: r)
  qed
  from this [OF zeroPerTeam_inv assms] show ?thesis by (simp add: sumMatchTotals_def)
qed

lemma holeTotals_inv:
  assumes "wellFormedLedger t"
  shows "totalsInv teams (holeTotals teams t hole)"
proof -
  have "totalsInv teams ob \<Longrightarrow> list_all (\<lambda>s. isNumber (s_strokes s) \<and> isNumber (s_par s)) ss \<Longrightarrow>
        totalsInv teams (fold (\<lambda>score teamStrokesDifference.
             case find (\<lambda>p. p_id p = s_playerId score) (t_players t) of
               None \<Rightarrow> teamStrokesDifference
             | Some player \<Rightarrow>
                 (case getPlayerTeam teams (p_name player) of
                    None \<Rightarrow> teamStrokesDifference
                  | Some team \<Rightarrow>
                      (let strokesVsPar = jsub (s_strokes score) (s_par score)
                       in if countsOnHole team (p_name player) hole
                          then obj_add teamStrokesDifference (tm_id team) strokesVsPar
                          else teamStrokesDifference))) ss ob)" for ss ob
  proof (induction ss arbitrary: ob)
    case Nil
    then show ?case by simp
  next
    case (Cons sc ss)
    from Cons.prems(2) have rest: "list_all (\<lambda>s. isNumber (s_strokes s) \<and> isNumber (s_par s)) ss"
      and "isNumber (s_strokes sc)" "isNumber (s_par sc)" by simp_all
    then have v: "isNumber (jsub (s_strokes sc) (s_par sc))"
      by (cases "s_strokes sc"; cases "s_par sc") simp_all
    have "totalsInv teams (case find (\<lambda>p. p_id p = s_playerId sc) (t_players t) of
               None \<Rightarrow> ob
             | Some player \<Rightarrow>
                 (case getPlayerTeam teams (p_name player) of
                    None \<Rightarrow> ob
                  | Some team \<Rightarrow>
                      (let strokesVsPar = jsub (s_strokes sc) (s_par sc)
                       in if countsOnHole team (p_name player) hole
                          then obj_add ob (tm_id team) strokesVsPar
                          else ob)))"
      using Cons.prems(1) v
      by (auto split: option.splits intro: totalsInv_obj_add dest: getPlayerTeam_mem)
    from Cons.IH [OF this rest] show ?case by simp
  qed
  note step = this
  have "list_all (\<lambda>s. isNumber (s_strokes s) \<and> isNumber (s_par s))
       (filter (\<lambda>s. s_hole s = hole \<and> s_round s = t_currentRound t) (t_scores t))"
    using assms by (simp add: wellFormedLedger_def list_all_filter)
  from step [OF zeroPerTeam_inv this] show ?thesis
    by (simp only: holeTotals_def)
qed

lemma Math_min_numeric:
  "list_all isNumber vs \<Longrightarrow> vs \<noteq> [] \<Longrightarrow>
   \<exists>lo. Math_min vs = Fin (Num lo) \<and> Num lo \<in> set vs \<and> (\<forall>y. Num y \<in> set vs \<longrightarrow> lo \<le> y)"
proof (induction vs)
  case Nil
  then show ?case by simp
next
  case (Cons v vs)
  from Cons.prems(1) obtain x where x: "v = Num x" by (auto simp: isNumber_conv)
  show ?case
  proof (cases "vs = []")
    case True
    with x show ?thesis by simp
  next
    case False
    with Cons obtain lo where lo: "Math_min vs = Fin (Num lo)" "Num lo \<in> set vs"
      "\<forall>y. Num y \<in> set vs \<longrightarrow> lo \<le> y" by auto
    then have "Math_min (v # vs) = Fin (Num (min x lo))" by (simp add: x)
    moreover have "Num (min x lo) \<in> set (v # vs)"
      using lo(2) x by (cases "x \<le> lo") (simp_all add: min_def)
    moreover have "\<forall>y. Num y \<in> set (v # vs) \<longrightarrow> min x lo \<le> y"
      using lo(3) x by auto
    ultimately show ?thesis by blast
  qed
qed

lemma Math_max_numeric:
  "list_all isNumber vs \<Longrightarrow> vs \<noteq> [] \<Longrightarrow>
   \<exists>hi. Math_max vs = Fin (Num hi) \<and> Num hi \<in> set vs \<and> (\<forall>y. Num y \<in> set vs \<longrightarrow> y \<le> hi)"
proof (induction vs)
  case Nil
  then show ?case by simp
next
  case (Cons v vs)
  from Cons.prems(1) obtain x where x: "v = Num x" by (auto simp: isNumber_conv)
  show ?case
  proof (cases "vs = []")
    case True
    with x show ?thesis by simp
  next
    case False
    with Cons obtain hi where hi: "Math_max vs = Fin (Num hi)" "Num hi \<in> set vs"
      "\<forall>y. Num y \<in> set vs \<longrightarrow> y \<le> hi" by auto
    then have "Math_max (v # vs) = Fin (Num (max x hi))" by (simp add: x)
    moreover have "Num (max x hi) \<in> set (v # vs)"
      using hi(2) x by (cases "x \<le> hi") (simp_all add: max_def)
    moreover have "\<forall>y. Num y \<in> set (v # vs) \<longrightarrow> y \<le> max x hi"
      using hi(3) x by auto
    ultimately show ?thesis by blast
  qed
qed

lemma isLowest_iff:
  "numericObj tot \<Longrightarrow> isLowest tot x \<longleftrightarrow> (\<forall>y. Num y \<in> snd ` set tot \<longrightarrow> x \<le> y)"
proof (induction tot)
  case Nil
  then show ?case by (simp add: isLowest_def)
next
  case (Cons p tot)
  obtain k v where p: "p = (k, v)" by (cases p)
  from Cons.prems p obtain z where z: "v = Num z" and rest: "numericObj tot"
    by (auto simp: numericObj_def isNumber_conv)
  have "isLowest (p # tot) x \<longleftrightarrow> x \<le> z \<and> isLowest tot x"
    by (simp add: isLowest_def p z)
  with Cons.IH [OF rest] show ?case by (auto simp: p z)
qed

lemma isHighest_iff:
  "numericObj tot \<Longrightarrow> isHighest tot x \<longleftrightarrow> (\<forall>y. Num y \<in> snd ` set tot \<longrightarrow> y \<le> x)"
proof (induction tot)
  case Nil
  then show ?case by (simp add: isHighest_def)
next
  case (Cons p tot)
  obtain k v where p: "p = (k, v)" by (cases p)
  from Cons.prems p obtain z where z: "v = Num z" and rest: "numericObj tot"
    by (auto simp: numericObj_def isNumber_conv)
  have "isHighest (p # tot) x \<longleftrightarrow> z \<le> x \<and> isHighest tot x"
    by (simp add: isHighest_def p z)
  with Cons.IH [OF rest] show ?case by (auto simp: p z)
qed

lemma js_seq_Num: "js_seq (Fin v) (Fin (Num x)) \<longleftrightarrow> v = Num x"
  by (cases v) simp_all

lemma teamsAt_Num:
  "teamsAt tot (Fin (Num x)) = map fst (filter (\<lambda>(k, v). v = Num x) tot)"
  by (simp add: teamsAt_def js_seq_Num)

lemma teamsAt_set: "set (teamsAt tot (Fin (Num x))) = {k. (k, Num x) \<in> set tot}"
  by (force simp: teamsAt_Num)

lemma teamsAt_length:
  "length (teamsAt tot (Fin (Num x))) = length (filter (\<lambda>(k, v). v = Num x) tot)"
  by (simp add: teamsAt_Num)

lemma fold_obj_set_map_of:
  "map_of (fold (\<lambda>teamId tp. obj_set tp teamId c) ks tp) k
     = (if k \<in> set ks then Some c else map_of tp k)"
  by (induction ks arbitrary: tp) (auto simp: map_of_obj_set)

text \<open>
  What the totals of a hole determine: the lowest and the highest total, which teams
  are at them, and when a total is the lowest or the highest.
\<close>

lemma extremes:
  assumes "distinct (map fst tot)" "numericObj tot" "(k, Num x) \<in> set tot"
  obtains lo hi where
    "Math_min (map snd tot) = Fin (Num lo)" "Math_max (map snd tot) = Fin (Num hi)"
    "isLowest tot x \<longleftrightarrow> x = lo" "isHighest tot x \<longleftrightarrow> x = hi"
    "k \<in> set (teamsAt tot (Fin (Num lo))) \<longleftrightarrow> x = lo"
    "k \<in> set (teamsAt tot (Fin (Num hi))) \<longleftrightarrow> x = hi"
    "lo \<le> hi"
proof -
  have ne: "map snd tot \<noteq> []" using assms(3) by auto
  have num: "list_all isNumber (map snd tot)"
    using assms(2) by (simp add: numericObj_def list_all_iff split_beta)
  from Math_min_numeric [OF num ne] obtain lo where lo:
    "Math_min (map snd tot) = Fin (Num lo)" "Num lo \<in> set (map snd tot)"
    "\<forall>y. Num y \<in> set (map snd tot) \<longrightarrow> lo \<le> y" by blast
  from Math_max_numeric [OF num ne] obtain hi where hi:
    "Math_max (map snd tot) = Fin (Num hi)" "Num hi \<in> set (map snd tot)"
    "\<forall>y. Num y \<in> set (map snd tot) \<longrightarrow> y \<le> hi" by blast
  have xin: "Num x \<in> set (map snd tot)" using assms(3) by force
  have low: "isLowest tot x \<longleftrightarrow> x = lo"
  proof
    assume "isLowest tot x"
    then have "x \<le> lo" using lo(2) by (simp add: isLowest_iff [OF assms(2)])
    moreover have "lo \<le> x" using lo(3) xin by blast
    ultimately show "x = lo" by simp
  next
    assume "x = lo"
    then show "isLowest tot x" using lo(3) by (simp add: isLowest_iff [OF assms(2)])
  qed
  have high: "isHighest tot x \<longleftrightarrow> x = hi"
  proof
    assume "isHighest tot x"
    then have "hi \<le> x" using hi(2) by (simp add: isHighest_iff [OF assms(2)])
    moreover have "x \<le> hi" using hi(3) xin by blast
    ultimately show "x = hi" by simp
  next
    assume "x = hi"
    then show "isHighest tot x" using hi(3) by (simp add: isHighest_iff [OF assms(2)])
  qed
  have uniq: "(k, Num z) \<in> set tot \<longleftrightarrow> z = x" for z
    using assms(1,3) by (metis eq_key_imp_eq_value jsnum.inject)
  have le: "lo \<le> hi" using lo(3) hi(2) by blast
  have w: "k \<in> set (teamsAt tot (Fin (Num lo))) \<longleftrightarrow> x = lo"
    using uniq [of lo] by (auto simp: teamsAt_set)
  have l: "k \<in> set (teamsAt tot (Fin (Num hi))) \<longleftrightarrow> x = hi"
    using uniq [of hi] by (auto simp: teamsAt_set)
  show ?thesis by (rule that [OF lo(1) hi(1) low high w l le])
qed

lemma sumMatchAward_points:
  assumes "distinct (map fst tot)" "numericObj tot" "(k, Num x) \<in> set tot"
  shows "map_of (sumMatchAward tot tp) k =
           (if awardAll tot x = 0 then map_of tp k else Some (Num (awardAll tot x)))"
proof -
  from extremes [OF assms] obtain lo hi where e:
    "Math_min (map snd tot) = Fin (Num lo)" "Math_max (map snd tot) = Fin (Num hi)"
    "isLowest tot x \<longleftrightarrow> x = lo" "isHighest tot x \<longleftrightarrow> x = hi"
    "k \<in> set (teamsAt tot (Fin (Num lo))) \<longleftrightarrow> x = lo"
    "k \<in> set (teamsAt tot (Fin (Num hi))) \<longleftrightarrow> x = hi"
    "lo \<le> hi" by blast
  show ?thesis
  proof (cases "lo = hi")
    case True
    then have "sumMatchAward tot tp = tp"
      by (simp add: sumMatchAward_def e(1,2) js_sneq_def)
    moreover have "awardAll tot x = 0"
      using True e(3,4) by (simp add: awardAll_def)
    ultimately show ?thesis by simp
  next
    case False
    then have "map_of (sumMatchAward tot tp) k =
        (if x = hi then Some (Num (- 1)) else if x = lo then Some (Num 1) else map_of tp k)"
      by (simp add: sumMatchAward_def e(1,2,5,6) js_sneq_def Let_def fold_obj_set_map_of)
    moreover have "awardAll tot x = (if x = hi then - 1 else if x = lo then 1 else 0)"
      using False e(3,4) by (auto simp: awardAll_def)
    ultimately show ?thesis by simp
  qed
qed

lemma sole_head:
  assumes "length ws = 1"
  shows "ws ! 0 = k \<longleftrightarrow> k \<in> set ws"
proof -
  from assms obtain w where "ws = [w]" by (cases ws) auto
  then show ?thesis by auto
qed

lemma holeAward_points:
  assumes "distinct (map fst tot)" "numericObj tot" "(k, Num x) \<in> set tot"
    and "map_of tp k = Some (Num p)"
  shows "map_of (holeAward tot tp) k = Some (Num (p + awardSole tot x))"
proof -
  from extremes [OF assms(1-3)] obtain lo hi where e:
    "Math_min (map snd tot) = Fin (Num lo)" "Math_max (map snd tot) = Fin (Num hi)"
    "isLowest tot x \<longleftrightarrow> x = lo" "isHighest tot x \<longleftrightarrow> x = hi"
    "k \<in> set (teamsAt tot (Fin (Num lo))) \<longleftrightarrow> x = lo"
    "k \<in> set (teamsAt tot (Fin (Num hi))) \<longleftrightarrow> x = hi"
    "lo \<le> hi" by blast
  let ?W = "teamsAt tot (Fin (Num lo))" and ?L = "teamsAt tot (Fin (Num hi))"
  show ?thesis
  proof (cases "lo = hi")
    case True
    then have "holeAward tot tp = tp"
      by (simp add: holeAward_def e(1,2) js_sneq_def)
    moreover have "awardSole tot x = 0"
      using True e(3,4) by (simp add: awardSole_def)
    ultimately show ?thesis using assms(4) by simp
  next
    case False
    define tp1 where "tp1 = (if length ?W = 1 then obj_add tp (?W ! 0) (Num 1) else tp)"
    have h: "holeAward tot tp = (if length ?L = 1 then obj_add tp1 (?L ! 0) (Num (- 1)) else tp1)"
      using False by (simp add: holeAward_def e(1,2) js_sneq_def Let_def tp1_def)
    have w: "length ?W = 1 \<Longrightarrow> (?W ! 0 = k) = (x = lo)"
      using sole_head [of ?W k] e(5) by simp
    have l: "length ?L = 1 \<Longrightarrow> (?L ! 0 = k) = (x = hi)"
      using sole_head [of ?L k] e(6) by simp
    have sole_lo: "x = lo \<Longrightarrow> soleAt tot x = (length ?W = 1)"
      by (simp add: soleAt_def teamsAt_length)
    have sole_hi: "x = hi \<Longrightarrow> soleAt tot x = (length ?L = 1)"
      by (simp add: soleAt_def teamsAt_length)
    have a: "awardSole tot x =
        (if x = lo \<and> length ?W = 1 then 1 else if x = hi \<and> length ?L = 1 then - 1 else 0)"
      using False e(3,4) sole_lo sole_hi by (auto simp: awardSole_def)
    have m1: "map_of tp1 k = (if x = lo \<and> length ?W = 1 then Some (Num (p + 1)) else Some (Num p))"
      using assms(4) w by (auto simp: tp1_def map_of_obj_add)
    show ?thesis
    proof (cases "x = hi \<and> length ?L = 1")
      case True
      with False have "x \<noteq> lo" by simp
      with True m1 l have "map_of (holeAward tot tp) k = Some (Num (p - 1))"
        by (simp add: h map_of_obj_add)
      with True \<open>x \<noteq> lo\<close> a show ?thesis by simp
    next
      case nl: False
      then have "map_of (holeAward tot tp) k = map_of tp1 k"
        using l by (auto simp: h map_of_obj_add)
      with m1 a nl show ?thesis by auto
    qed
  qed
qed

lemma totalsInv_distinct: "totalsInv teams ob \<Longrightarrow> distinct (map fst ob)"
  and totalsInv_numeric: "totalsInv teams ob \<Longrightarrow> numericObj ob"
  and totalsInv_keys: "totalsInv teams ob \<Longrightarrow> fst ` set ob = tm_id ` set teams"
  by (simp_all add: totalsInv_def)

text \<open>
  C1 (as amended). In the per-hole match computation (\<open>calculateSumMatchPoints\<close> via
  \<open>processHoleMatch\<close>), over numeric hole results, every team whose total equals the
  minimum receives +1, every team whose total equals the maximum receives -1, also when
  several teams tie at that extreme, and when the minimum equals the maximum no team
  receives points. In the per-hole award of \<open>generateTeamLeaderboard\<close> a team's running
  total changes by +1 only when it is the only team at the minimum and by -1 only when it
  is the only team at the maximum; teams tied at an extreme, and all teams when the
  minimum equals the maximum, keep their total.
\<close>

theorem C1_sum_match_award:
  "(numericObj holeResults \<and> g_gameType sg = SumMatch
      \<and> (k, Num x) \<in> set (sumMatchTotals teams holeResults hole) \<longrightarrow>
      map_of (m_teamPoints (fst (processHoleMatch_sidegame teams newId now sg hole holeResults))) k
        = Some (Num (awardAll (sumMatchTotals teams holeResults hole) x)))
   \<and> (wellFormedLedger t \<and> (k', Num x') \<in> set (holeTotals teams t hole')
        \<and> map_of teamTotalPoints k' = Some (Num p) \<longrightarrow>
        map_of (holeAward (holeTotals teams t hole') teamTotalPoints) k'
          = Some (Num (p + awardSole (holeTotals teams t hole') x')))"
proof (intro conjI impI)
  assume a: "numericObj holeResults \<and> g_gameType sg = SumMatch
      \<and> (k, Num x) \<in> set (sumMatchTotals teams holeResults hole)"
  let ?tot = "sumMatchTotals teams holeResults hole"
  have inv: "totalsInv teams ?tot" using a by (simp add: sumMatchTotals_inv)
  have "k \<in> fst ` set ?tot" using a by force
  then have "k \<in> tm_id ` set teams" using totalsInv_keys [OF inv] by simp
  then have z: "map_of (zeroPerTeam teams) k = Some (Num 0)"
    by (simp add: zeroPerTeam_map_of)
  have "map_of (calculateSumMatchPoints teams holeResults hole) k = Some (Num (awardAll ?tot x))"
    unfolding calculateSumMatchPoints_def
    using sumMatchAward_points [OF totalsInv_distinct [OF inv] totalsInv_numeric [OF inv], of k x
        "zeroPerTeam teams"] a z
    by simp
  then show "map_of (m_teamPoints (fst (processHoleMatch_sidegame teams newId now sg hole holeResults))) k
        = Some (Num (awardAll ?tot x))"
    using a by (simp add: processHoleMatch_sidegame_def Let_def)
next
  assume b: "wellFormedLedger t \<and> (k', Num x') \<in> set (holeTotals teams t hole')
        \<and> map_of teamTotalPoints k' = Some (Num p)"
  let ?tot = "holeTotals teams t hole'"
  have inv: "totalsInv teams ?tot" using b by (simp add: holeTotals_inv)
  show "map_of (holeAward ?tot teamTotalPoints) k' = Some (Num (p + awardSole ?tot x'))"
    using holeAward_points [OF totalsInv_distinct [OF inv] totalsInv_numeric [OF inv]] b
    by blast
qed

theorem C1_sum_match_award_witness:
  "(numericObj [(''Ann'', Num (- 1)), (''Bob'', Num 1), (''Cid'', Num (- 1))]
      \<and> g_gameType (exampleSidegame SumMatch) = SumMatch
      \<and> (''red'', Num (- 1)) \<in> set (sumMatchTotals exampleTeams
            [(''Ann'', Num (- 1)), (''Bob'', Num 1), (''Cid'', Num (- 1))] 1))
   \<and> map_of (m_teamPoints (fst (processHoleMatch_sidegame exampleTeams ''m1'' 0
          (exampleSidegame SumMatch) 1
          [(''Ann'', Num (- 1)), (''Bob'', Num 1), (''Cid'', Num (- 1))]))) ''red''
       = Some (Num 1)
   \<and> (wellFormedLedger exampleTournament
        \<and> (''blue'', Num 1) \<in> set (holeTotals exampleTeams exampleTournament 1)
        \<and> map_of (zeroPerTeam exampleTeams) ''blue'' = Some (Num 0))
   \<and> map_of (holeAward (holeTotals exampleTeams exampleTournament 1)
          (zeroPerTeam exampleTeams)) ''blue'' = Some (Num (- 1))"
proof -
  let ?hr = "[(''Ann'', Num (- 1)), (''Bob'', Num 1), (''Cid'', Num (- 1))]"
  have h1: "numericObj ?hr \<and> g_gameType (exampleSidegame SumMatch) = SumMatch
      \<and> (''red'', Num (- 1)) \<in> set (sumMatchTotals exampleTeams ?hr 1)"
    by code_simp
  have h2: "wellFormedLedger exampleTournament
        \<and> (''blue'', Num 1) \<in> set (holeTotals exampleTeams exampleTournament 1)
        \<and> map_of (zeroPerTeam exampleTeams) ''blue'' = Some (Num 0)"
    by code_simp
  have v1: "awardAll (sumMatchTotals exampleTeams ?hr 1) (- 1) = 1"
    by code_simp
  have v2: "awardSole (holeTotals exampleTeams exampleTournament 1) 1 = - 1"
    by code_simp
  from C1_sum_match_award [where holeResults = ?hr and sg = "exampleSidegame SumMatch"
      and k = "''red''" and x = "- 1" and teams = exampleTeams and hole = 1
      and newId = "''m1''" and now = 0
      and t = exampleTournament and k' = "''blue''" and x' = 1 and hole' = 1
      and teamTotalPoints = "zeroPerTeam exampleTeams" and p = 0]
    h1 h2 v1 v2
  show ?thesis by simp
qed

text \<open>
  C1 as stated fails in the team-leaderboard recompute: on hole 1 of the example Red
  and White tie at the lowest total -1 and Blue has the highest, 1; the per-hole award
  leaves Red at 0, and the leaderboard shows Red and White with 0 points.
\<close>

theorem C1_sole_winner_counterexample:
  "holeTotals exampleTeams exampleTournament 1
     = [(''red'', Num (- 1)), (''blue'', Num 1), (''white'', Num (- 1))]
   \<and> isLowest (holeTotals exampleTeams exampleTournament 1) (- 1)
   \<and> \<not> isHighest (holeTotals exampleTeams exampleTournament 1) (- 1)
   \<and> map_of (holeAward (holeTotals exampleTeams exampleTournament 1)
         (zeroPerTeam exampleTeams)) ''red'' = Some (Num 0)
   \<and> map e_teamId
        (generateTeamLeaderboard compareCodes exampleTeams (Some (exampleSidegame SumMatch))
           (Some exampleTournament))
       = [''red'', ''white'', ''blue'']
   \<and> map e_totalPoints
        (generateTeamLeaderboard compareCodes exampleTeams (Some (exampleSidegame SumMatch))
           (Some exampleTournament))
       = [0, 0, - 1]"
  by code_simp

section \<open>All-vs-all points\<close>











section \<open>Rounding to a double\<close>

text \<open>
  \<open>rne\<close> returns one of the two neighbouring integers, at most one half away from its
  argument; it is monotone and odd.
\<close>

lemma rne_cases:
  "rne y = \<lfloor>y\<rfloor> \<or> rne y = \<lfloor>y\<rfloor> + 1"
  by (simp add: rne_def Let_def)

lemma rne_err: "\<bar>of_int (rne y) - y\<bar> \<le> 1 / 2"
proof -
  define f where "f = \<lfloor>y\<rfloor>"
  have b: "of_int f \<le> y" "y < of_int f + 1" unfolding f_def by linarith+
  have r: "rne y = (if y - of_int f < 1 / 2 then f
               else if y - of_int f > 1 / 2 then f + 1
               else if even f then f else f + 1)"
    by (simp only: rne_def f_def Let_def)
  show ?thesis
  proof (cases "y - of_int f < 1 / 2")
    case True
    then have "rne y = f" by (simp only: r if_True)
    with b True show ?thesis by simp
  next
    case False
    show ?thesis
    proof (cases "y - of_int f > 1 / 2")
      case True
      with False have "rne y = f + 1" by (simp only: r if_True if_False)
      with b True show ?thesis by simp
    next
      case nt: False
      with False have h: "y = of_int f + 1 / 2" by linarith
      have "rne y = f \<or> rne y = f + 1" using rne_cases [of y] by (simp add: f_def)
      with h show ?thesis by auto
    qed
  qed
qed

lemma rne_of_int: "rne (of_int n) = n"
  by (simp add: rne_def)

lemma rne_mono:
  assumes "y \<le> z"
  shows "rne y \<le> rne z"
proof (cases "\<lfloor>y\<rfloor> = \<lfloor>z\<rfloor>")
  case True
  with assms show ?thesis
    by (auto simp: rne_def Let_def)
next
  case False
  with assms have "\<lfloor>y\<rfloor> + 1 \<le> \<lfloor>z\<rfloor>"
    using floor_mono [OF assms] by linarith
  moreover have "rne y \<le> \<lfloor>y\<rfloor> + 1" using rne_cases [of y] by linarith
  moreover have "\<lfloor>z\<rfloor> \<le> rne z" using rne_cases [of z] by linarith
  ultimately show ?thesis by linarith
qed

lemma rne_minus: "rne (- y) = - rne y"
proof (cases "y = of_int \<lfloor>y\<rfloor>")
  case True
  then obtain n where "y = of_int n" ..
  then have "rne y = n" "rne (- y) = - n"
    using rne_of_int [of n] rne_of_int [of "- n"] by simp_all
  then show ?thesis by simp
next
  case False
  define f where "f = \<lfloor>y\<rfloor>"
  have b: "of_int f < y" "y < of_int f + 1"
    using False unfolding f_def by linarith+
  have fl: "\<lfloor>- y\<rfloor> = - f - 1"
    using b by (intro floor_unique) simp_all
  have r: "rne y = (if y - of_int f < 1 / 2 then f
               else if y - of_int f > 1 / 2 then f + 1
               else if even f then f else f + 1)"
    by (simp only: rne_def f_def Let_def)
  have r': "rne (- y) = (if - y - of_int (- f - 1) < 1 / 2 then - f - 1
               else if - y - of_int (- f - 1) > 1 / 2 then (- f - 1) + 1
               else if even (- f - 1) then - f - 1 else (- f - 1) + 1)"
    by (simp only: rne_def fl Let_def)
  consider (lo) "y - of_int f < 1 / 2" | (hi) "y - of_int f > 1 / 2" | (mid) "y - of_int f = 1 / 2"
    by linarith
  then show ?thesis
  proof cases
    case lo
    then have "rne y = f" by (simp only: r if_True)
    moreover from lo have "\<not> - y - of_int (- f - 1) < 1 / 2" "- y - of_int (- f - 1) > 1 / 2"
      by simp_all
    then have "rne (- y) = (- f - 1) + 1" by (simp only: r' if_True if_False)
    ultimately show ?thesis by simp
  next
    case hi
    then have "\<not> y - of_int f < 1 / 2" by simp
    with hi have "rne y = f + 1" by (simp only: r if_True if_False)
    moreover from hi have "- y - of_int (- f - 1) < 1 / 2" by simp
    then have "rne (- y) = - f - 1" by (simp only: r' if_True)
    ultimately show ?thesis by simp
  next
    case mid
    then have n1: "\<not> y - of_int f < 1 / 2" "\<not> y - of_int f > 1 / 2" by simp_all
    from mid have n2: "\<not> - y - of_int (- f - 1) < 1 / 2" "\<not> - y - of_int (- f - 1) > 1 / 2"
      by simp_all
    have a: "rne y = (if even f then f else f + 1)"
      using n1 by (simp only: r if_False)
    have b': "rne (- y) = (if even (- f - 1) then - f - 1 else (- f - 1) + 1)"
      using n2 by (simp only: r' if_False)
    show ?thesis
      by (cases "even f") (simp_all add: a b')
  qed
qed

lemma rne_eqI:
  assumes "of_int n - 1 / 2 < y" "y < of_int n + 1 / 2"
  shows "rne y = n"
proof -
  have "\<bar>of_int (rne y) - y\<bar> \<le> 1 / 2" by (rule rne_err)
  then have "\<bar>(of_int (rne y) :: real) - of_int n\<bar> < 1" using assms by linarith
  then have "\<bar>rne y - n\<bar> < 1"
    by (metis of_int_diff of_int_abs of_int_less_iff of_int_1)
  then show ?thesis by linarith
qed

text \<open>The binade of a number: its bounds determine it, and it is monotone.\<close>

lemma binade_bounds:
  assumes "x \<noteq> 0"
  shows "2 powr of_int (binade x) \<le> \<bar>x\<bar>" and "\<bar>x\<bar> < 2 powr of_int (binade x + 1)"
proof -
  have pos: "0 < \<bar>x\<bar>" using assms by simp
  have "of_int (binade x) \<le> log 2 \<bar>x\<bar>" by (simp add: binade_def)
  then show "2 powr of_int (binade x) \<le> \<bar>x\<bar>"
    using pos by (simp add: le_log_iff)
  have "log 2 \<bar>x\<bar> < of_int (binade x + 1)" unfolding binade_def by linarith
  then show "\<bar>x\<bar> < 2 powr of_int (binade x + 1)"
    using pos by (simp add: log_less_iff)
qed

lemma binade_unique:
  assumes "0 < x" "2 powr of_int e \<le> x" "x < 2 powr of_int (e + 1)"
  shows "binade x = e"
proof -
  have "of_int e \<le> log 2 x" using assms(1,2) by (simp add: le_log_iff)
  moreover have "log 2 x < of_int e + 1" using assms(1,3) by (simp add: log_less_iff)
  ultimately show ?thesis using assms(1) by (simp add: binade_def floor_eq_iff)
qed

lemma binade_mono:
  assumes "0 < x" "x \<le> y"
  shows "binade x \<le> binade y"
  unfolding binade_def using assms by (intro floor_mono) (simp add: log_le_cancel_iff)

text \<open>
  \<open>fl64\<close> is odd, keeps the sign, has a relative error of at most \<open>2 ^ -53\<close> and is
  monotone.
\<close>

lemma fl64_minus: "fl64 (- x) = - fl64 x"
  by (simp add: fl64_def binade_def rne_minus)

lemma fl64_nonneg: "0 \<le> x \<Longrightarrow> 0 \<le> fl64 x"
proof -
  assume "0 \<le> x"
  then have "0 \<le> x / 2 powr of_int (binade x - 52)" by simp
  from rne_mono [OF this] have "0 \<le> rne (x / 2 powr of_int (binade x - 52))"
    using rne_of_int [of 0] by simp
  then show ?thesis by (simp add: fl64_def)
qed

lemma fl64_err: "\<bar>fl64 x - x\<bar> \<le> \<bar>x\<bar> / 2 ^ 53"
proof (cases "x = 0")
  case True
  then show ?thesis by (simp add: fl64_def)
next
  case False
  define ulp :: real where "ulp = 2 powr of_int (binade x - 52)"
  have up: "0 < ulp" by (simp add: ulp_def)
  have "fl64 x - x = (of_int (rne (x / ulp)) - x / ulp) * ulp"
    using False up by (simp add: fl64_def ulp_def algebra_simps)
  then have "\<bar>fl64 x - x\<bar> = \<bar>of_int (rne (x / ulp)) - x / ulp\<bar> * ulp"
    using up by (simp add: abs_mult)
  also have "\<dots> \<le> 1 / 2 * ulp"
    using rne_err [of "x / ulp"] up by (intro mult_right_mono) simp_all
  also have "\<dots> = 2 powr of_int (binade x) / 2 ^ 53"
  proof -
    have "ulp = 2 powr of_int (binade x) * 2 powr (- 52)"
      by (simp add: ulp_def flip: powr_add)
    also have "(2::real) powr (- 52) = 1 / 2 ^ 52"
      by (simp add: powr_minus_divide)
    finally show ?thesis by simp
  qed
  also have "\<dots> \<le> \<bar>x\<bar> / 2 ^ 53"
    using binade_bounds(1) [OF False] by (simp add: divide_right_mono)
  finally show ?thesis .
qed

lemma fl64_err_bound:
  assumes "\<bar>x\<bar> \<le> B"
  shows "\<bar>fl64 x - x\<bar> \<le> B * (1 / 2 ^ 53)"
proof -
  have "\<bar>fl64 x - x\<bar> \<le> \<bar>x\<bar> / 2 ^ 53" by (rule fl64_err)
  also have "\<dots> \<le> B / 2 ^ 53" using assms by (simp add: divide_right_mono)
  finally show ?thesis by simp
qed

lemma fl64_mono_pos:
  assumes "0 < x" "x \<le> y"
  shows "fl64 x \<le> fl64 y"
proof -
  have ypos: "0 < y" using assms by simp
  define ux :: real where "ux = 2 powr of_int (binade x - 52)"
  define uy :: real where "uy = 2 powr of_int (binade y - 52)"
  have ux: "0 < ux" and uy: "0 < uy" by (simp_all add: ux_def uy_def)
  have fx: "fl64 x = of_int (rne (x / ux)) * ux"
    using assms(1) by (simp add: fl64_def ux_def)
  have fy: "fl64 y = of_int (rne (y / uy)) * uy"
    using ypos by (simp add: fl64_def uy_def)
  have le: "binade x \<le> binade y" using assms by (rule binade_mono)
  show ?thesis
  proof (cases "binade x = binade y")
    case True
    then have "ux = uy" by (simp add: ux_def uy_def)
    moreover have "rne (x / uy) \<le> rne (y / uy)"
      using assms(2) uy by (intro rne_mono) (simp add: divide_right_mono)
    ultimately show ?thesis
      using uy by (simp add: fx fy mult_right_mono)
  next
    case False
    with le have lt: "binade x + 1 \<le> binade y" by simp
    have top: "2 powr of_int (binade x + 1) = 2 ^ 53 * ux"
    proof -
      have "of_int (binade x + 1) = of_int (binade x - 52) + (53::real)" by simp
      then have "(2::real) powr of_int (binade x + 1) = 2 powr of_int (binade x - 52) * 2 powr 53"
        by (simp only: powr_add)
      then show ?thesis by (simp add: ux_def)
    qed
    have bot: "2 powr of_int (binade y) = 2 ^ 52 * uy"
    proof -
      have "of_int (binade y) = of_int (binade y - 52) + (52::real)" by simp
      then have "(2::real) powr of_int (binade y) = 2 powr of_int (binade y - 52) * 2 powr 52"
        by (simp only: powr_add)
      then show ?thesis by (simp add: uy_def)
    qed
    have "x < 2 powr of_int (binade x + 1)"
      using binade_bounds(2) [of x] assms(1) by simp
    then have "x < 2 ^ 53 * ux" by (simp only: top)
    then have "x / ux \<le> of_int (2 ^ 53)" using ux by (simp add: field_simps)
    from rne_mono [OF this] have "rne (x / ux) \<le> 2 ^ 53" by (simp only: rne_of_int)
    then have "of_int (rne (x / ux)) \<le> (2 ^ 53 :: real)"
      by (metis of_int_le_iff of_int_numeral of_int_power)
    then have "of_int (rne (x / ux)) * ux \<le> 2 ^ 53 * ux"
      using ux by (intro mult_right_mono) simp_all
    then have a: "fl64 x \<le> 2 powr of_int (binade x + 1)"
      by (simp only: fx top)
    have b: "(2::real) powr of_int (binade x + 1) \<le> 2 powr of_int (binade y)"
      using lt by (intro powr_mono) simp_all
    have "2 powr of_int (binade y) \<le> y"
      using binade_bounds(1) [of y] ypos by simp
    then have "2 ^ 52 * uy \<le> y" by (simp only: bot)
    then have "of_int (2 ^ 52) \<le> y / uy" using uy by (simp add: field_simps)
    from rne_mono [OF this] have "2 ^ 52 \<le> rne (y / uy)" by (simp only: rne_of_int)
    then have "(2 ^ 52 :: real) \<le> of_int (rne (y / uy))"
      by (metis of_int_le_iff of_int_numeral of_int_power)
    then have "2 ^ 52 * uy \<le> of_int (rne (y / uy)) * uy"
      using uy by (intro mult_right_mono) simp_all
    then have c: "2 powr of_int (binade y) \<le> fl64 y"
      by (simp only: fy bot)
    from a b c show ?thesis by linarith
  qed
qed

lemma fl64_mono: "mono fl64"
proof (rule monoI)
  fix x y :: real
  assume xy: "x \<le> y"
  consider (pos) "0 < x" | (neg) "y < 0" | (mixed) "x \<le> 0" "0 \<le> y" by linarith
  then show "fl64 x \<le> fl64 y"
  proof cases
    case pos
    then show ?thesis using xy by (rule fl64_mono_pos)
  next
    case neg
    then have "0 < - y" "- y \<le> - x" using xy by simp_all
    then have "fl64 (- y) \<le> fl64 (- x)" by (rule fl64_mono_pos)
    then show ?thesis by (simp add: fl64_minus)
  next
    case mixed
    from mixed(1) have "0 \<le> fl64 (- x)" by (intro fl64_nonneg) simp
    then have "fl64 x \<le> 0" by (simp add: fl64_minus)
    moreover have "0 \<le> fl64 y" using mixed(2) by (rule fl64_nonneg)
    ultimately show ?thesis by linarith
  qed
qed

text \<open>
  The value of \<open>fl64\<close> at a given number: scaled by the power of two that brings it
  between \<open>2 ^ 52\<close> and \<open>2 ^ 53\<close>, the number is rounded to the integer \<open>n\<close> less than one
  half away.
\<close>

lemma fl64_scale:
  assumes "2 ^ 52 \<le> x * 2 ^ k" "x * 2 ^ k < 2 ^ 53"
  shows "fl64 x = of_int (rne (x * 2 ^ k)) / 2 ^ k"
proof -
  have k: "(0::real) < 2 ^ k" by simp
  have "(0::real) < 2 ^ 52" by simp
  with assms(1) have "0 < x * 2 ^ k" by linarith
  with k have pos: "0 < x" by (simp add: zero_less_mult_iff)
  have pw: "(2::real) powr (of_int (52 - int k)) = 2 ^ 52 / 2 ^ k"
  proof -
    have "of_int (52 - int k) = (52::real) - real k" by simp
    then have "(2::real) powr (of_int (52 - int k)) = 2 powr (52 - real k)" by (simp only:)
    also have "\<dots> = 2 powr 52 / 2 powr real k" by (rule powr_diff)
    also have "\<dots> = 2 ^ 52 / 2 ^ k" by (simp add: powr_realpow)
    finally show ?thesis .
  qed
  have pw1: "(2::real) powr (of_int (52 - int k + 1)) = 2 ^ 53 / 2 ^ k"
  proof -
    have "of_int (52 - int k + 1) = (53::real) - real k" by simp
    then have "(2::real) powr (of_int (52 - int k + 1)) = 2 powr (53 - real k)" by (simp only:)
    also have "\<dots> = 2 powr 53 / 2 powr real k" by (rule powr_diff)
    also have "\<dots> = 2 ^ 53 / 2 ^ k" by (simp add: powr_realpow)
    finally show ?thesis .
  qed
  have b: "binade x = 52 - int k"
  proof (rule binade_unique [OF pos])
    have "2 ^ 52 / 2 ^ k \<le> x" using assms(1) k by (simp add: field_simps)
    then show "2 powr of_int (52 - int k) \<le> x" by (simp only: pw)
    have "x < 2 ^ 53 / 2 ^ k" using assms(2) k by (simp add: field_simps)
    then show "x < 2 powr of_int (52 - int k + 1)" by (simp only: pw1)
  qed
  have u: "(2::real) powr of_int (52 - int k - 52) = 1 / 2 ^ k"
  proof -
    have "of_int (52 - int k - 52) = - real k" by simp
    then have "(2::real) powr of_int (52 - int k - 52) = 2 powr (- real k)" by (simp only:)
    also have "\<dots> = 1 / 2 powr real k" by (simp add: powr_minus_divide)
    also have "\<dots> = 1 / 2 ^ k" by (simp add: powr_realpow)
    finally show ?thesis .
  qed
  have "fl64 x = of_int (rne (x / 2 powr of_int (binade x - 52))) * 2 powr of_int (binade x - 52)"
    using pos by (simp add: fl64_def)
  also have "\<dots> = of_int (rne (x / (1 / 2 ^ k))) * (1 / 2 ^ k)"
    by (simp only: b u)
  also have "\<dots> = of_int (rne (x * 2 ^ k)) / 2 ^ k" by simp
  finally show ?thesis .
qed

lemma fl64_value:
  assumes "2 ^ 52 \<le> x * 2 ^ k" "x * 2 ^ k < 2 ^ 53"
    and "of_int n - 1 / 2 < x * 2 ^ k" "x * 2 ^ k < of_int n + 1 / 2"
  shows "fl64 x = of_int n / 2 ^ k"
  using fl64_scale [OF assms(1,2)] rne_eqI [OF assms(3,4)] by simp

section \<open>Course handicap\<close>

lemma totalPar_72: "totalPar = 72"
  by (simp add: totalPar_def standardPar_def)

lemma Math_round_mono: "x \<le> y \<Longrightarrow> Math_round x \<le> Math_round y"
  by (simp add: Math_round_def floor_mono)

text \<open>
  For an index of 0 to 100 and a slope and rating of 0 to 1000 the value handed to
  \<open>Math.round\<close> is within \<open>2 ^ -39\<close> of the exact one: the product is at most 100000, the
  quotient and the difference are below 2000 and the sum is below 6000, each rounded
  with a relative error of at most \<open>2 ^ -53\<close>.
\<close>

lemma courseHandicap_sum_error:
  assumes "0 \<le> h" "h \<le> 100" "0 \<le> s" "s \<le> 1000" "0 \<le> cr" "cr \<le> 1000"
  shows "\<bar>fl64 (fl64 (fl64 (h * s) / 113) + fl64 (cr - 72)) - (h * s / 113 + (cr - 72))\<bar>
           \<le> 1 / 2 ^ 39"
proof -
  define u :: real where "u = 1 / 2 ^ 53"
  have u0: "0 \<le> u" and u1: "u \<le> 1" by (simp_all add: u_def)
  define P where "P = h * s"
  define P1 where "P1 = fl64 P"
  define Q where "Q = P1 / 113"
  define Q1 where "Q1 = fl64 Q"
  define D where "D = cr - 72"
  define D1 where "D1 = fl64 D"
  define S where "S = Q1 + D1"
  define S1 where "S1 = fl64 S"
  have "0 \<le> P" using assms(1,3) by (simp add: P_def)
  moreover have "h * s \<le> 100 * 1000" using assms by (intro mult_mono) simp_all
  ultimately have bP: "\<bar>P\<bar> \<le> 100000" by (simp add: P_def)
  have eP: "\<bar>P1 - P\<bar> \<le> 100000 * u"
    unfolding P1_def u_def using bP by (rule fl64_err_bound)
  have bP1: "\<bar>P1\<bar> \<le> 200000" using bP eP u1 by linarith
  have bQ: "\<bar>Q\<bar> \<le> 2000" using bP1 by (simp add: Q_def)
  have eQ: "\<bar>Q1 - Q\<bar> \<le> 2000 * u"
    unfolding Q1_def u_def using bQ by (rule fl64_err_bound)
  have "Q - P / 113 = (P1 - P) / 113" by (simp add: Q_def diff_divide_distrib)
  then have "\<bar>Q - P / 113\<bar> = \<bar>P1 - P\<bar> / 113" by (simp only: abs_divide abs_numeral)
  also have "\<dots> \<le> 100000 * u / 113" using eP by (rule divide_right_mono) simp
  also have "\<dots> \<le> 1000 * u" using u0 by simp
  finally have eQP: "\<bar>Q - P / 113\<bar> \<le> 1000 * u" .
  have bQ1: "\<bar>Q1\<bar> \<le> 4000" using bQ eQ u1 by linarith
  have bD: "\<bar>D\<bar> \<le> 1000" using assms(5,6) by (simp add: D_def)
  have eD: "\<bar>D1 - D\<bar> \<le> 1000 * u"
    unfolding D1_def u_def using bD by (rule fl64_err_bound)
  have bD1: "\<bar>D1\<bar> \<le> 2000" using bD eD u1 by linarith
  have bS: "\<bar>S\<bar> \<le> 6000" using bQ1 bD1 by (simp add: S_def)
  have eS: "\<bar>S1 - S\<bar> \<le> 6000 * u"
    unfolding S1_def u_def using bS by (rule fl64_err_bound)
  have "\<bar>S1 - (P / 113 + D)\<bar> \<le> 10000 * u"
    using eS eQ eQP eD by (simp add: S_def)
  also have "\<dots> \<le> 1 / 2 ^ 39" by (simp add: u_def)
  finally show ?thesis
    by (simp only: S1_def S_def Q1_def Q_def P1_def P_def D1_def D_def)
qed

lemma courseHandicap_sandwich:
  assumes "0 \<le> h" "h \<le> 100" "0 \<le> s" "s \<le> 1000" "0 \<le> cr" "cr \<le> 1000"
  shows "\<lfloor>h * s / 113 + (cr - of_int totalPar) + 1 / 2 - 1 / 2 ^ 39\<rfloor> \<le> courseHandicap h s cr"
    and "courseHandicap h s cr \<le> \<lfloor>h * s / 113 + (cr - of_int totalPar) + 1 / 2 + 1 / 2 ^ 39\<rfloor>"
proof -
  have e: "\<bar>fl64 (fl64 (fl64 (h * s) / 113) + fl64 (cr - 72)) - (h * s / 113 + (cr - 72))\<bar>
           \<le> 1 / 2 ^ 39"
    using assms by (rule courseHandicap_sum_error)
  have c: "courseHandicap h s cr = \<lfloor>fl64 (fl64 (fl64 (h * s) / 113) + fl64 (cr - 72)) + 1 / 2\<rfloor>"
    by (simp add: courseHandicap_def Math_round_def totalPar_72)
  show "\<lfloor>h * s / 113 + (cr - of_int totalPar) + 1 / 2 - 1 / 2 ^ 39\<rfloor> \<le> courseHandicap h s cr"
    unfolding c totalPar_72 using e by (intro floor_mono) linarith
  show "courseHandicap h s cr \<le> \<lfloor>h * s / 113 + (cr - of_int totalPar) + 1 / 2 + 1 / 2 ^ 39\<rfloor>"
    unfolding c totalPar_72 using e by (intro floor_mono) linarith
qed

text \<open>Every operation of the expression is monotone in the index when the slope is not negative.\<close>

lemma courseHandicap_mono:
  assumes "0 \<le> slopeRating" "index \<le> index'"
  shows "courseHandicap index slopeRating courseRating
           \<le> courseHandicap index' slopeRating courseRating"
proof -
  note m = monoD [OF fl64_mono]
  have "index * slopeRating \<le> index' * slopeRating"
    using assms by (simp add: mult_right_mono)
  then have "fl64 (index * slopeRating) \<le> fl64 (index' * slopeRating)" by (rule m)
  then have "fl64 (index * slopeRating) / 113 \<le> fl64 (index' * slopeRating) / 113"
    by (simp add: divide_right_mono)
  then have "fl64 (fl64 (index * slopeRating) / 113) \<le> fl64 (fl64 (index' * slopeRating) / 113)"
    by (rule m)
  then have "fl64 (index * slopeRating) / 113 = fl64 (index * slopeRating) / 113
    \<and> fl64 (fl64 (index * slopeRating) / 113) + fl64 (courseRating - of_int totalPar)
      \<le> fl64 (fl64 (index' * slopeRating) / 113) + fl64 (courseRating - of_int totalPar)"
    by simp
  then have "fl64 (fl64 (fl64 (index * slopeRating) / 113) + fl64 (courseRating - of_int totalPar))
      \<le> fl64 (fl64 (fl64 (index' * slopeRating) / 113) + fl64 (courseRating - of_int totalPar))"
    by (intro m) simp
  then show ?thesis
    unfolding courseHandicap_def by (rule Math_round_mono)
qed

text \<open>
  Two evaluations, operation by operation. The handicap 33.9 with slope 55 and rating
  72: the double of 33.9 times 55 is just below 1864.5 and rounds to it.
\<close>

lemma double_339_10: "fl64 (339 / 10) = 4771000855245619 / 2 ^ 47"
  using fl64_value [where x = "339 / 10" and k = 47 and n = 4771000855245619] by simp

lemma double_product: "fl64 (4771000855245619 / 2 ^ 47 * 55) = 3729 / 2"
  using fl64_value [where x = "4771000855245619 / 2 ^ 47 * 55" and k = 42 and n = 8200157719953408]
  by simp

lemma double_quotient: "fl64 (3729 / 2 / 113) = 33 / 2"
  using fl64_value [where x = "3729 / 2 / 113" and k = 48 and n = 4644337115725824] by simp

lemma double_33_2: "fl64 (33 / 2) = 33 / 2"
  using fl64_value [where x = "33 / 2" and k = 48 and n = 4644337115725824] by simp

lemma courseHandicap_339_10: "courseHandicap (fl64 (339 / 10)) 55 72 = 17"
proof -
  have "fl64 (72 - of_int totalPar) = 0" by (simp add: totalPar_72 fl64_def)
  then have "courseHandicap (fl64 (339 / 10)) 55 72 = Math_round (33 / 2)"
    unfolding courseHandicap_def
    by (simp only: double_339_10 double_product double_quotient double_33_2 add_0_right)
  also have "\<dots> = 17" by (simp add: Math_round_def)
  finally show ?thesis .
qed

lemma spec_339_10: "spec_receivedStrokes (fl64 (339 / 10)) 55 72 = 16"
proof -
  have "round (4771000855245619 / 2 ^ 47 * 55 / 113 + (72 - of_int totalPar) :: real) = 16"
    unfolding round_def totalPar_72 by (rule floor_unique) simp_all
  then show ?thesis by (simp only: spec_receivedStrokes_def spec_courseHandicap_def double_339_10)
qed

text \<open>
  The handicap 0.2 with slope 113 and rating 72.3: the double of 72.3 is below 72.3,
  and so is the sum below one half.
\<close>

lemma double_1_5: "fl64 (1 / 5) = 7205759403792794 / 2 ^ 55"
  using fl64_value [where x = "1 / 5" and k = 55 and n = 7205759403792794] by simp

lemma double_723_10: "fl64 (723 / 10) = 5087660204045107 / 2 ^ 46"
  using fl64_value [where x = "723 / 10" and k = 46 and n = 5087660204045107] by simp

lemma double_product2: "fl64 (7205759403792794 / 2 ^ 55 * 113) = 6361334473660826 / 2 ^ 48"
  using fl64_value [where x = "7205759403792794 / 2 ^ 55 * 113" and k = 48 and n = 6361334473660826] by simp

lemma double_quotient2: "fl64 (6361334473660826 / 2 ^ 48 / 113) = 7205759403792794 / 2 ^ 55"
  using fl64_value [where x = "6361334473660826 / 2 ^ 48 / 113" and k = 55 and n = 7205759403792794] by simp

lemma double_difference2: "fl64 (5087660204045107 / 2 ^ 46 - 72) = 5404319552844544 / 2 ^ 54"
  using fl64_value [where x = "5087660204045107 / 2 ^ 46 - 72" and k = 54 and n = 5404319552844544] by simp

lemma double_sum2: "fl64 (7205759403792794 / 2 ^ 55 + 5404319552844544 / 2 ^ 54) = 9007199254740941 / 2 ^ 54"
  using fl64_value [where x = "7205759403792794 / 2 ^ 55 + 5404319552844544 / 2 ^ 54" and k = 54 and n = 9007199254740941] by simp

lemma courseHandicap_1_5: "courseHandicap (fl64 (1 / 5)) 113 (fl64 (723 / 10)) = 0"
proof -
  have "courseHandicap (fl64 (1 / 5)) 113 (fl64 (723 / 10)) = Math_round (9007199254740941 / 2 ^ 54)"
    unfolding courseHandicap_def totalPar_72 of_int_numeral
    by (simp only: double_1_5 double_723_10 double_product2 double_quotient2
          double_difference2 double_sum2)
  also have "\<dots> = 0" unfolding Math_round_def by (rule floor_unique) simp_all
  finally show ?thesis .
qed

lemma spec_1_5: "spec_receivedStrokes (1 / 5) 113 (723 / 10) = 1"
proof -
  have "round (1 / 5 * 113 / 113 + (723 / 10 - of_int totalPar) :: real) = 1"
    unfolding round_def totalPar_72 by (rule floor_unique) simp_all
  then show ?thesis by (simp only: spec_receivedStrokes_def spec_courseHandicap_def)
qed

text \<open>
  C5 (as amended). The \<open>receivedStrokes\<close> of a player created at setup is
  \<open>max(0, Math.round(...))\<close> of the course-handicap expression evaluated on doubles.
  For an index of 0 to 100 and a slope and course rating of 0 to 1000 the four roundings
  move the value before \<open>Math.round\<close> by at most \<open>2 ^ -39\<close>, so \<open>receivedStrokes\<close> lies
  between the clamped floors of the exact value plus one half, \<open>2 ^ -39\<close> below and
  above; where these two floors agree, that is unless the exact value is within
  \<open>2 ^ -39\<close> of a half-integer, it equals
  \<open>max(0, round(index * slope / 113 + (courseRating - totalPar)))\<close>. It is a
  non-negative integer always, and for a non-negative slope it does not decrease when
  the index increases.
\<close>

theorem C5_course_handicap:
  "p_receivedStrokes (parsePlayerInfo newId name (Some index) courseRating slopeRating)
     = Some (max 0 (courseHandicap index slopeRating courseRating))
   \<and> (0 \<le> index \<and> index \<le> 100 \<and> 0 \<le> slopeRating \<and> slopeRating \<le> 1000
        \<and> 0 \<le> courseRating \<and> courseRating \<le> 1000 \<longrightarrow>
        max 0 \<lfloor>spec_courseHandicap index slopeRating courseRating + 1 / 2 - 1 / 2 ^ 39\<rfloor>
          \<le> max 0 (courseHandicap index slopeRating courseRating)
        \<and> max 0 (courseHandicap index slopeRating courseRating)
          \<le> max 0 \<lfloor>spec_courseHandicap index slopeRating courseRating + 1 / 2 + 1 / 2 ^ 39\<rfloor>
        \<and> (\<lfloor>spec_courseHandicap index slopeRating courseRating + 1 / 2 - 1 / 2 ^ 39\<rfloor>
             = \<lfloor>spec_courseHandicap index slopeRating courseRating + 1 / 2 + 1 / 2 ^ 39\<rfloor> \<longrightarrow>
            max 0 (courseHandicap index slopeRating courseRating)
              = spec_receivedStrokes index slopeRating courseRating))
   \<and> 0 \<le> max 0 (courseHandicap index slopeRating courseRating)
   \<and> (0 \<le> slopeRating \<and> index \<le> index' \<longrightarrow>
        max 0 (courseHandicap index slopeRating courseRating)
          \<le> max 0 (courseHandicap index' slopeRating courseRating))"
proof (intro conjI impI)
  show "p_receivedStrokes (parsePlayerInfo newId name (Some index) courseRating slopeRating)
     = Some (max 0 (courseHandicap index slopeRating courseRating))"
    by (simp add: parsePlayerInfo_def)
  show "0 \<le> max 0 (courseHandicap index slopeRating courseRating)"
    by simp
next
  assume "0 \<le> slopeRating \<and> index \<le> index'"
  then have "courseHandicap index slopeRating courseRating
           \<le> courseHandicap index' slopeRating courseRating"
    by (simp add: courseHandicap_mono)
  then show "max 0 (courseHandicap index slopeRating courseRating)
          \<le> max 0 (courseHandicap index' slopeRating courseRating)"
    by linarith
next
  let ?X = "spec_courseHandicap index slopeRating courseRating"
  let ?c = "courseHandicap index slopeRating courseRating"
  assume r: "0 \<le> index \<and> index \<le> 100 \<and> 0 \<le> slopeRating \<and> slopeRating \<le> 1000
        \<and> 0 \<le> courseRating \<and> courseRating \<le> 1000"
  have lo: "\<lfloor>?X + 1 / 2 - 1 / 2 ^ 39\<rfloor> \<le> ?c"
    unfolding spec_courseHandicap_def
    using courseHandicap_sandwich(1) [of index slopeRating courseRating] r by blast
  have hi: "?c \<le> \<lfloor>?X + 1 / 2 + 1 / 2 ^ 39\<rfloor>"
    unfolding spec_courseHandicap_def
    using courseHandicap_sandwich(2) [of index slopeRating courseRating] r by blast
  from lo show "max 0 \<lfloor>?X + 1 / 2 - 1 / 2 ^ 39\<rfloor> \<le> max 0 ?c" by linarith
  from hi show "max 0 ?c \<le> max 0 \<lfloor>?X + 1 / 2 + 1 / 2 ^ 39\<rfloor>" by linarith
  assume eq: "\<lfloor>?X + 1 / 2 - 1 / 2 ^ 39\<rfloor> = \<lfloor>?X + 1 / 2 + 1 / 2 ^ 39\<rfloor>"
  have "\<lfloor>?X + 1 / 2 - 1 / 2 ^ 39\<rfloor> \<le> \<lfloor>?X + 1 / 2\<rfloor>" by (rule floor_mono) simp
  moreover have "\<lfloor>?X + 1 / 2\<rfloor> \<le> \<lfloor>?X + 1 / 2 + 1 / 2 ^ 39\<rfloor>" by (rule floor_mono) simp
  ultimately have "?c = round ?X" using lo hi eq unfolding round_def by linarith
  then show "max 0 ?c = spec_receivedStrokes index slopeRating courseRating"
    by (simp only: spec_receivedStrokes_def)
qed

theorem C5_course_handicap_witness:
  "(0 \<le> (10::real) \<and> (10::real) \<le> 100 \<and> 0 \<le> (125::real) \<and> (125::real) \<le> 1000
      \<and> 0 \<le> (72::real) \<and> (72::real) \<le> 1000)
   \<and> (10::real) \<le> 20
   \<and> \<lfloor>spec_courseHandicap 10 125 72 + 1 / 2 - 1 / 2 ^ 39\<rfloor>
       = \<lfloor>spec_courseHandicap 10 125 72 + 1 / 2 + 1 / 2 ^ 39\<rfloor>
   \<and> spec_receivedStrokes 10 125 72 = 11
   \<and> p_receivedStrokes (parsePlayerInfo ''p1'' ''Ann'' (Some 10) 72 125) = Some 11
   \<and> max 0 (courseHandicap 10 125 72) \<le> max 0 (courseHandicap 20 125 72)"
proof -
  have f1: "\<lfloor>spec_courseHandicap 10 125 72 + 1 / 2 - 1 / 2 ^ 39\<rfloor> = 11"
    unfolding spec_courseHandicap_def totalPar_72 by (rule floor_unique) simp_all
  have f2: "\<lfloor>spec_courseHandicap 10 125 72 + 1 / 2 + 1 / 2 ^ 39\<rfloor> = 11"
    unfolding spec_courseHandicap_def totalPar_72 by (rule floor_unique) simp_all
  have "round (spec_courseHandicap 10 125 72) = 11"
    unfolding spec_courseHandicap_def totalPar_72 round_def by (rule floor_unique) simp_all
  then have sp: "spec_receivedStrokes 10 125 72 = 11"
    by (simp only: spec_receivedStrokes_def)
  note T = C5_course_handicap [where newId = "''p1''" and name = "''Ann''" and index = 10
      and index' = 20 and slopeRating = 125 and courseRating = 72]
  from T have A: "p_receivedStrokes (parsePlayerInfo ''p1'' ''Ann'' (Some 10) 72 125)
      = Some (max 0 (courseHandicap 10 125 72))"
    by (rule conjunct1)
  from T f1 f2 have B: "max 0 (courseHandicap 10 125 72) = spec_receivedStrokes 10 125 72"
    by simp
  from T have M: "max 0 (courseHandicap 10 125 72) \<le> max 0 (courseHandicap 20 125 72)"
    by simp
  show ?thesis
  proof (intro conjI)
    show "p_receivedStrokes (parsePlayerInfo ''p1'' ''Ann'' (Some 10) 72 125) = Some 11"
      by (simp only: A B sp)
    show "max 0 (courseHandicap 10 125 72) \<le> max 0 (courseHandicap 20 125 72)"
      by (rule M)
    show "\<lfloor>spec_courseHandicap 10 125 72 + 1 / 2 - 1 / 2 ^ 39\<rfloor>
       = \<lfloor>spec_courseHandicap 10 125 72 + 1 / 2 + 1 / 2 ^ 39\<rfloor>"
      by (simp only: f1 f2)
    show "spec_receivedStrokes 10 125 72 = 11" by (rule sp)
  qed simp_all
qed

text \<open>
  C5 as stated fails on doubles. The handicap text \<open>33.9\<close> is the double
  \<open>fl64 (339 / 10)\<close>, just below 33.9; with slope 55 and course rating 72 the product
  rounds up to 1864.5, the quotient is 16.5 and \<open>Math.round\<close> gives 17, whereas the
  formula on the same three numbers is below 16.5 and rounds to 16. The texts \<open>0.2\<close>,
  \<open>113\<close> and \<open>72.3\<close> give 0, whereas the formula on these decimals is 0.5 and rounds
  to 1.
\<close>

theorem C5_double_rounding_counterexample:
  "p_receivedStrokes (parsePlayerInfo ''p1'' ''Ann'' (Some (fl64 (339 / 10))) 72 55) = Some 17
   \<and> spec_receivedStrokes (fl64 (339 / 10)) 55 72 = 16
   \<and> p_receivedStrokes
        (parsePlayerInfo ''p2'' ''Bob'' (Some (fl64 (1 / 5))) (fl64 (723 / 10)) 113) = Some 0
   \<and> spec_receivedStrokes (1 / 5) 113 (723 / 10) = 1"
  by (simp add: parsePlayerInfo_def courseHandicap_339_10 courseHandicap_1_5
      spec_339_10 spec_1_5)

section \<open>Recording and deleting scores\<close>

text \<open>
  C4. The claim says a score with a hole outside 1..18 or with strokes below 1 is
  rejected and never enters the ledger, as the schema of a ledger entry
  (\<open>ScoreEntrySchema\<close>: hole 1..18, strokes at least 1, par 3..5) requires. The code
  does not check: the update for hole 25 with -3 strokes is appended to the ledger, with
  no par, both through \<open>processScoringUpdate\<close> and through the manual-score handler.
\<close>

theorem C4_unvalidated_score_enters_ledger:
  "processScoringUpdate_tournament ''n'' 500 exampleTournament
     \<lparr> u_player = ''Ann'', u_hole = Some 25, u_strokes = Some (- 3), u_action = Score,
       u_rawTranscription = [] \<rparr>
   = (Some \<lparr> s_playerId = ''p1'', s_hole = 25, s_round = 2, s_strokes = Num (- 3),
             s_par = NaN, s_timestamp = 500 \<rparr>,
      exampleTournament \<lparr> t_scores := t_scores exampleTournament @
         [\<lparr> s_playerId = ''p1'', s_hole = 25, s_round = 2, s_strokes = Num (- 3),
            s_par = NaN, s_timestamp = 500 \<rparr>] \<rparr>)
   \<and> manualScore ''n'' 500 exampleTournament ''p1'' (Some 25) (Strokes (- 3))
   = (Inr \<lparr> s_playerId = ''p1'', s_hole = 25, s_round = 2, s_strokes = Num (- 3),
             s_par = NaN, s_timestamp = 500 \<rparr>,
      exampleTournament \<lparr> t_scores := t_scores exampleTournament @
         [\<lparr> s_playerId = ''p1'', s_hole = 25, s_round = 2, s_strokes = Num (- 3),
            s_par = NaN, s_timestamp = 500 \<rparr>] \<rparr>)"
  by code_simp

lemma findIndex_Some:
  "findIndex P xs = Some i \<Longrightarrow> i < length xs \<and> P (xs ! i) \<and> (\<forall>j<i. \<not> P (xs ! j))"
proof (induction xs arbitrary: i)
  case Nil
  then show ?case by simp
next
  case (Cons x xs)
  show ?case
  proof (cases "P x")
    case True
    with Cons.prems show ?thesis by simp
  next
    case False
    with Cons.prems obtain k where k: "findIndex P xs = Some k" "i = Suc k" by auto
    from Cons.IH [OF k(1)] False k(2) show ?thesis
      by (auto simp: less_Suc_eq_0_disj)
  qed
qed




lemma delete_shape:
  assumes "deleteScore_tournament now t update = (r, t')"
  shows "\<exists>L. (L = t_scores t \<or> L = array_sort byTimestampDesc (t_scores t)) \<and>
           ((r = None \<and> t_scores t' = L) \<or>
            (\<exists>i p h. findIndex (\<lambda>s. s_playerId s = p \<and> s_hole s = h) L = Some i
                \<and> t_scores t' = take i L @ drop (Suc i) L
                \<and> r = Some \<lparr> s_playerId = p, s_hole = h, s_round = s_round (L ! i),
                              s_strokes = Num 0, s_par = s_par (L ! i), s_timestamp = now \<rparr>))"
  using assms
  unfolding deleteScore_tournament_def Let_def
  by (auto split: option.splits if_splits prod.splits list.splits)








lemma findIndex_first:
  "\<forall>s\<in>set pre. \<not> P s \<Longrightarrow> P a \<Longrightarrow> findIndex P (pre @ a # rest) = Some (length pre)"
  by (induction pre) simp_all

lemma findIndex_split:
  assumes "findIndex P xs = Some i"
  shows "xs = take i xs @ xs ! i # drop (Suc i) xs \<and> (\<forall>s\<in>set (take i xs). \<not> P s) \<and> P (xs ! i)"
proof -
  from findIndex_Some [OF assms] have i: "i < length xs" "P (xs ! i)" "\<forall>j<i. \<not> P (xs ! j)"
    by simp_all
  have "\<forall>s\<in>set (take i xs). \<not> P s"
  proof
    fix s assume "s \<in> set (take i xs)"
    then obtain j where "j < length (take i xs)" "take i xs ! j = s"
      by (auto simp: in_set_conv_nth)
    with i show "\<not> P s" by auto
  qed
  with i show ?thesis by (simp add: id_take_nth_drop [symmetric])
qed

text \<open>
  C10. \<open>deleteScore\<close> matches the entry to remove by player id and hole only. With
  the player and the hole given in the update, it removes the first stored entry of
  that player and hole, whatever its round, and returns that entry's round; later
  entries for the same player and hole (of other rounds) stay. In every case in which
  something is deleted, the entry removed is the first one in the ledger (re-sorted by
  time when neither player nor hole was given) with the returned player id and hole.
\<close>

theorem C10_delete_ignores_round:
  "(u_player update \<noteq> [] \<and> find (nameMatches (u_player update)) (t_players t) = Some pl
      \<and> u_hole update = Some h \<and> h \<noteq> 0
      \<and> t_scores t = pre @ a # rest \<and> s_playerId a = p_id pl \<and> s_hole a = h
      \<and> (\<forall>s\<in>set pre. \<not> (s_playerId s = p_id pl \<and> s_hole s = h)) \<longrightarrow>
      deleteScore_tournament now t update
        = (Some \<lparr> s_playerId = p_id pl, s_hole = h, s_round = s_round a, s_strokes = Num 0,
                  s_par = s_par a, s_timestamp = now \<rparr>,
           t\<lparr>t_scores := pre @ rest\<rparr>))
   \<and> (deleteScore_tournament now t update = (Some d, t') \<longrightarrow>
        (\<exists>L pre' a' rest'.
           (L = t_scores t \<or> L = array_sort byTimestampDesc (t_scores t))
           \<and> L = pre' @ a' # rest'
           \<and> s_playerId a' = s_playerId d \<and> s_hole a' = s_hole d
           \<and> (\<forall>s\<in>set pre'. \<not> (s_playerId s = s_playerId d \<and> s_hole s = s_hole d))
           \<and> t_scores t' = pre' @ rest' \<and> s_round d = s_round a'))"
proof (intro conjI impI)
  assume a: "u_player update \<noteq> [] \<and> find (nameMatches (u_player update)) (t_players t) = Some pl
      \<and> u_hole update = Some h \<and> h \<noteq> 0
      \<and> t_scores t = pre @ a # rest \<and> s_playerId a = p_id pl \<and> s_hole a = h
      \<and> (\<forall>s\<in>set pre. \<not> (s_playerId s = p_id pl \<and> s_hole s = h))"
  then have "findIndex (\<lambda>s. s_playerId s = p_id pl \<and> s_hole s = h) (pre @ a # rest)
               = Some (length pre)"
    by (intro findIndex_first) simp_all
  with a show "deleteScore_tournament now t update
        = (Some \<lparr> s_playerId = p_id pl, s_hole = h, s_round = s_round a, s_strokes = Num 0,
                  s_par = s_par a, s_timestamp = now \<rparr>,
           t\<lparr>t_scores := pre @ rest\<rparr>)"
    by (simp add: deleteScore_tournament_def)
next
  assume "deleteScore_tournament now t update = (Some d, t')"
  from delete_shape [OF this] obtain L i p h where
    L: "L = t_scores t \<or> L = array_sort byTimestampDesc (t_scores t)"
    and i: "findIndex (\<lambda>s. s_playerId s = p \<and> s_hole s = h) L = Some i"
    and t': "t_scores t' = take i L @ drop (Suc i) L"
    and d: "d = \<lparr> s_playerId = p, s_hole = h, s_round = s_round (L ! i),
                              s_strokes = Num 0, s_par = s_par (L ! i), s_timestamp = now \<rparr>"
    by auto
  from findIndex_split [OF i] d
  have "L = take i L @ L ! i # drop (Suc i) L
      \<and> s_playerId (L ! i) = s_playerId d \<and> s_hole (L ! i) = s_hole d
      \<and> (\<forall>s\<in>set (take i L). \<not> (s_playerId s = s_playerId d \<and> s_hole s = s_hole d))
      \<and> s_round d = s_round (L ! i)"
    by simp
  with L t' show "\<exists>L pre' a' rest'.
           (L = t_scores t \<or> L = array_sort byTimestampDesc (t_scores t))
           \<and> L = pre' @ a' # rest'
           \<and> s_playerId a' = s_playerId d \<and> s_hole a' = s_hole d
           \<and> (\<forall>s\<in>set pre'. \<not> (s_playerId s = s_playerId d \<and> s_hole s = s_hole d))
           \<and> t_scores t' = pre' @ rest' \<and> s_round d = s_round a'"
    by blast
qed

theorem C10_delete_ignores_round_witness:
  "(u_player exampleDelete \<noteq> []
      \<and> find (nameMatches (u_player exampleDelete)) (t_players exampleTournament)
          = Some (t_players exampleTournament ! 0)
      \<and> u_hole exampleDelete = Some 1 \<and> (1::int) \<noteq> 0
      \<and> t_scores exampleTournament
          = [] @ t_scores exampleTournament ! 0 # tl (t_scores exampleTournament)
      \<and> s_playerId (t_scores exampleTournament ! 0) = p_id (t_players exampleTournament ! 0)
      \<and> s_hole (t_scores exampleTournament ! 0) = 1)
   \<and> t_currentRound exampleTournament = 2
   \<and> map s_round (filter (\<lambda>s. s_playerId s = ''p1'' \<and> s_hole s = 1) (t_scores exampleTournament))
       = [1, 2]
   \<and> deleteScore_tournament 700 exampleTournament exampleDelete
       = (Some \<lparr> s_playerId = ''p1'', s_hole = 1, s_round = 1, s_strokes = Num 0,
                 s_par = Num 4, s_timestamp = 700 \<rparr>,
          exampleTournament\<lparr>t_scores := tl (t_scores exampleTournament)\<rparr>)
   \<and> map s_round (filter (\<lambda>s. s_playerId s = ''p1'' \<and> s_hole s = 1)
        (tl (t_scores exampleTournament))) = [2]"
proof -
  have h: "u_player exampleDelete \<noteq> []
      \<and> find (nameMatches (u_player exampleDelete)) (t_players exampleTournament)
          = Some (t_players exampleTournament ! 0)
      \<and> u_hole exampleDelete = Some 1 \<and> (1::int) \<noteq> 0
      \<and> t_scores exampleTournament
          = [] @ t_scores exampleTournament ! 0 # tl (t_scores exampleTournament)
      \<and> s_playerId (t_scores exampleTournament ! 0) = p_id (t_players exampleTournament ! 0)
      \<and> s_hole (t_scores exampleTournament ! 0) = 1"
    by code_simp
  have v: "t_currentRound exampleTournament = 2
     \<and> map s_round (filter (\<lambda>s. s_playerId s = ''p1'' \<and> s_hole s = 1)
          (t_scores exampleTournament)) = [1, 2]
     \<and> map s_round (filter (\<lambda>s. s_playerId s = ''p1'' \<and> s_hole s = 1)
        (tl (t_scores exampleTournament))) = [2]
     \<and> p_id (t_players exampleTournament ! 0) = ''p1''
     \<and> s_round (t_scores exampleTournament ! 0) = 1
     \<and> s_par (t_scores exampleTournament ! 0) = Num 4"
    by code_simp
  from C10_delete_ignores_round [where update = exampleDelete and t = exampleTournament
      and pl = "t_players exampleTournament ! 0" and h = 1 and pre = "[]"
      and a = "t_scores exampleTournament ! 0" and rest = "tl (t_scores exampleTournament)"
      and now = 700] h v
  show ?thesis by simp
qed

lemma frame_other_fields:
  "processScoringUpdate_tournament newId now t update = (r, t') \<Longrightarrow>
   t'\<lparr>t_players := t_players t, t_scores := t_scores t\<rparr> = t"
  unfolding processScoringUpdate_tournament_def deleteScore_tournament_def Let_def
  by (auto split: option.splits if_splits prod.splits list.splits)

lemma players_delete:
  "deleteScore_tournament now t update = (r, t') \<Longrightarrow> t_players t' = t_players t"
  unfolding deleteScore_tournament_def Let_def
  by (auto split: option.splits if_splits prod.splits list.splits)

lemma players_created:
  assumes "createsPlayer t update"
    and "processScoringUpdate_tournament newId now t update = (r, t')"
  shows "\<exists>ch. t_players t' = t_players t @
           [\<lparr> p_id = newId, p_name = u_player update, p_currentHole = ch,
              p_handicap = None, p_receivedStrokes = None \<rparr>]"
  using assms
  unfolding processScoringUpdate_tournament_def Let_def createsPlayer_def
  by (auto split: option.splits if_splits prod.splits)

lemma players_kept:
  assumes "\<not> createsPlayer t update"
    and "processScoringUpdate_tournament newId now t update = (r, t')"
  shows "t_players t' = t_players t \<or>
         (\<exists>i<length (t_players t). t_players t' =
            (t_players t)[i := (t_players t ! i)\<lparr>p_currentHole := p_currentHole (t_players t ! i) + 1\<rparr>])"
proof (cases "u_action update = Delete")
  case True
  with assms(2) players_delete show ?thesis
    by (simp add: processScoringUpdate_tournament_def)
next
  case False
  show ?thesis
  proof (cases "findIndex (nameMatches (u_player update)) (t_players t)")
    case None
    with False assms(1) have "u_player update = []" by (simp add: createsPlayer_def)
    with None False assms(2) show ?thesis
      by (simp add: processScoringUpdate_tournament_def)
  next
    case (Some i)
    from findIndex_Some [OF Some] have "i < length (t_players t)" by simp
    with Some False assms(2) show ?thesis
      unfolding processScoringUpdate_tournament_def Let_def
      by (auto split: option.splits if_splits)
  qed
qed

lemma identity_currentHole: "identityOf (p\<lparr>p_currentHole := ch\<rparr>) = identityOf p"
  by (simp add: identityOf_def)

text \<open>
  C9 (as amended). Processing an update changes nothing of the tournament but the
  ledger and the roster. Every player on the roster keeps id, name, handicap and
  received strokes, and at most one of them changes at all (its \<open>currentHole\<close>). The
  roster grows exactly when the update is no delete and names, with a non-empty name, a
  player matching nobody: then one player with a fresh id, that name, no handicap and no
  received strokes is appended.
\<close>

theorem C9_roster_frame:
  "processScoringUpdate_tournament newId now t update = (r, t') \<longrightarrow>
     t'\<lparr>t_players := t_players t, t_scores := t_scores t\<rparr> = t
     \<and> map identityOf (take (length (t_players t)) (t_players t')) = map identityOf (t_players t)
     \<and> (\<exists>i. \<forall>j<length (t_players t). j \<noteq> i \<longrightarrow> t_players t' ! j = t_players t ! j)
     \<and> (createsPlayer t update \<longrightarrow>
          (\<exists>ch. t_players t' = t_players t @
             [\<lparr> p_id = newId, p_name = u_player update, p_currentHole = ch,
                p_handicap = None, p_receivedStrokes = None \<rparr>]))
     \<and> (\<not> createsPlayer t update \<longrightarrow> length (t_players t') = length (t_players t))"
proof (intro impI)
  assume p: "processScoringUpdate_tournament newId now t update = (r, t')"
  have frame: "t'\<lparr>t_players := t_players t, t_scores := t_scores t\<rparr> = t"
    using p by (rule frame_other_fields)
  show "t'\<lparr>t_players := t_players t, t_scores := t_scores t\<rparr> = t
     \<and> map identityOf (take (length (t_players t)) (t_players t')) = map identityOf (t_players t)
     \<and> (\<exists>i. \<forall>j<length (t_players t). j \<noteq> i \<longrightarrow> t_players t' ! j = t_players t ! j)
     \<and> (createsPlayer t update \<longrightarrow>
          (\<exists>ch. t_players t' = t_players t @
             [\<lparr> p_id = newId, p_name = u_player update, p_currentHole = ch,
                p_handicap = None, p_receivedStrokes = None \<rparr>]))
     \<and> (\<not> createsPlayer t update \<longrightarrow> length (t_players t') = length (t_players t))"
  proof (cases "createsPlayer t update")
    case True
    from players_created [OF True p] obtain ch where
      ps: "t_players t' = t_players t @
           [\<lparr> p_id = newId, p_name = u_player update, p_currentHole = ch,
              p_handicap = None, p_receivedStrokes = None \<rparr>]" by blast
    have "\<forall>j<length (t_players t). j \<noteq> 0 \<longrightarrow> t_players t' ! j = t_players t ! j"
      by (simp add: ps nth_append)
    then have "\<exists>i. \<forall>j<length (t_players t). j \<noteq> i \<longrightarrow> t_players t' ! j = t_players t ! j" ..
    with True frame ps show ?thesis by simp
  next
    case False
    from players_kept [OF False p]
    show ?thesis
    proof
      assume same: "t_players t' = t_players t"
      then have "\<forall>j<length (t_players t). j \<noteq> 0 \<longrightarrow> t_players t' ! j = t_players t ! j"
        by simp
      then have "\<exists>i. \<forall>j<length (t_players t). j \<noteq> i \<longrightarrow> t_players t' ! j = t_players t ! j" ..
      with False frame same show ?thesis by simp
    next
      assume "\<exists>i<length (t_players t). t_players t' =
            (t_players t)[i := (t_players t ! i)\<lparr>p_currentHole := p_currentHole (t_players t ! i) + 1\<rparr>]"
      then obtain i where i: "i < length (t_players t)"
        and ps: "t_players t' =
            (t_players t)[i := (t_players t ! i)\<lparr>p_currentHole := p_currentHole (t_players t ! i) + 1\<rparr>]"
        by blast
      have "map identityOf (t_players t') = (map identityOf (t_players t))[i := identityOf (t_players t ! i)]"
        by (simp add: ps map_update identity_currentHole)
      also have "\<dots> = map identityOf (t_players t)"
        using i by (simp add: list_update_same_conv)
      finally have idn: "map identityOf (t_players t') = map identityOf (t_players t)" .
      have len: "length (t_players t') = length (t_players t)" by (simp add: ps)
      have "\<forall>j<length (t_players t). j \<noteq> i \<longrightarrow> t_players t' ! j = t_players t ! j"
        by (simp add: ps)
      then have "\<exists>i. \<forall>j<length (t_players t). j \<noteq> i \<longrightarrow> t_players t' ! j = t_players t ! j" ..
      with False frame idn len show ?thesis by simp
    qed
  qed
qed

theorem C9_roster_frame_witness:
  "processScoringUpdate_tournament ''p4'' 500 exampleTournament (exampleRecord 5)
     = (fst (processScoringUpdate_tournament ''p4'' 500 exampleTournament (exampleRecord 5)),
        snd (processScoringUpdate_tournament ''p4'' 500 exampleTournament (exampleRecord 5)))
   \<and> \<not> createsPlayer exampleTournament (exampleRecord 5)
   \<and> map identityOf (take (length (t_players exampleTournament)) (t_players
        (snd (processScoringUpdate_tournament ''p4'' 500 exampleTournament (exampleRecord 5)))))
       = map identityOf (t_players exampleTournament)
   \<and> map p_currentHole (t_players
        (snd (processScoringUpdate_tournament ''p4'' 500 exampleTournament (exampleRecord 5))))
       = [3, 2, 2]
   \<and> createsPlayer exampleTournament (exampleUnknown (Some 4))
   \<and> t_players (snd (processScoringUpdate_tournament ''p4'' 500 exampleTournament
        (exampleUnknown (Some 4))))
       = t_players exampleTournament @
           [\<lparr> p_id = ''p4'', p_name = ''Dee'', p_currentHole = 2,
              p_handicap = None, p_receivedStrokes = None \<rparr>]"
proof -
  let ?a = "processScoringUpdate_tournament ''p4'' 500 exampleTournament (exampleRecord 5)"
  let ?b = "processScoringUpdate_tournament ''p4'' 500 exampleTournament (exampleUnknown (Some 4))"
  have h1: "\<not> createsPlayer exampleTournament (exampleRecord 5)
      \<and> createsPlayer exampleTournament (exampleUnknown (Some 4))"
    by code_simp
  have v1: "map p_currentHole (t_players (snd ?a)) = [3, 2, 2]"
    by code_simp
  have v2: "t_players (snd ?b) = t_players exampleTournament @
           [\<lparr> p_id = ''p4'', p_name = ''Dee'', p_currentHole = 2,
              p_handicap = None, p_receivedStrokes = None \<rparr>]"
    by code_simp
  have A: "map identityOf (take (length (t_players exampleTournament)) (t_players (snd ?a)))
       = map identityOf (t_players exampleTournament)"
    using C9_roster_frame [where newId = "''p4''" and now = 500 and t = exampleTournament
      and update = "exampleRecord 5" and r = "fst ?a" and t' = "snd ?a"]
    by simp
  have B: "length (t_players (snd ?b)) = Suc (length (t_players exampleTournament))"
    using C9_roster_frame [where newId = "''p4''" and now = 500 and t = exampleTournament
      and update = "exampleUnknown (Some 4)" and r = "fst ?b" and t' = "snd ?b"] h1
    by auto
  from A B h1 v1 v2 show ?thesis by simp
qed

text \<open>
  C9 as stated fails: a score for a name that matches nobody adds a player to the
  roster, also when the update carries no strokes and the call returns \<open>null\<close>.
\<close>

theorem C9_player_created_counterexample:
  "map p_name (t_players exampleTournament) = [''Ann'', ''Bob'', ''Cid'']
   \<and> map p_name (t_players (snd (processScoringUpdate_tournament ''p4'' 500 exampleTournament
        (exampleUnknown (Some 4))))) = [''Ann'', ''Bob'', ''Cid'', ''Dee'']
   \<and> fst (processScoringUpdate_tournament ''p4'' 500 exampleTournament (exampleUnknown None))
       = None
   \<and> map p_name (t_players (snd (processScoringUpdate_tournament ''p4'' 500 exampleTournament
        (exampleUnknown None)))) = [''Ann'', ''Bob'', ''Cid'', ''Dee'']"
  by code_simp

section \<open>The methods on the service's map\<close>

text \<open>
  \<open>processScoringUpdate\<close> returns \<open>null\<close> and changes nothing for an unknown
  tournament id; otherwise it is the function on the tournament, whose result is stored
  under the id.
\<close>

lemma processScoringUpdate_unknown:
  "ts tournamentId = None \<Longrightarrow> processScoringUpdate newId now ts tournamentId update = (None, ts)"
  by (simp add: processScoringUpdate_def)

lemma processScoringUpdate_known:
  "ts tournamentId = Some t \<Longrightarrow>
   processScoringUpdate newId now ts tournamentId update
     = (fst (processScoringUpdate_tournament newId now t update),
        ts(tournamentId \<mapsto> snd (processScoringUpdate_tournament newId now t update)))"
  by (simp add: processScoringUpdate_def split_beta)

text \<open>Every player of a new tournament is built by \<open>parsePlayerInfo\<close>.\<close>

lemma createTournament_players:
  "p \<in> set (t_players (createTournament tid ids now name courseName courseRating slopeRating
                          playerNames totalRounds)) \<Longrightarrow>
   \<exists>newId n m. p = parsePlayerInfo newId n m courseRating slopeRating"
  by (auto simp: createTournament_def)

end
